theory Spec2Isabelle
  imports Complex_Main
begin

section \<open>FocusFlow detection backend: proximity classifiers and smoothing\<close>

text \<open>
  A shallow embedding of \<^verbatim>\<open>src/backend/main.py\<close>. Python's floats are read as real
  numbers, so that the thresholds \<open>0.2\<close>, \<open>0.3\<close>, \<open>100\<close>, \<open>140\<close>, \<open>200\<close> and
  \<open>window_size / 2\<close> are the exact values the source writes. Python's dictionaries with
  fixed keys are records. A Python exception is a value of the type \<open>exception\<close>, and a
  function that may raise returns \<open>exception + 'a\<close> with \<open>Inl\<close> for the raise.
\<close>

subsection \<open>Exceptions\<close>

datatype exception =
    HTTPException nat string
  | IndexError
  | ValueError
  | Error string

text \<open>Sequencing of two steps, the first of which may raise.\<close>

definition and_then :: "exception + 'a \<Rightarrow> ('a \<Rightarrow> exception + 'b) \<Rightarrow> exception + 'b" where
  "and_then m f = (case m of Inl e \<Rightarrow> Inl e | Inr v \<Rightarrow> f v)"

text \<open>\<^verbatim>\<open>xs[i]\<close> for an index literal \<open>i \<ge> 0\<close>: out of range raises IndexError.\<close>

definition get_item :: "'a list \<Rightarrow> nat \<Rightarrow> exception + 'a" where
  "get_item xs i = (if i < length xs then Inr (xs ! i) else Inl IndexError)"

subsection \<open>Data\<close>

text \<open>
  The dictionary built by \<^verbatim>\<open>detect_objects\<close> for one phone. The keypoint dictionary
  built by \<^verbatim>\<open>detect_pose\<close> has the keys \<^verbatim>\<open>x\<close>, \<^verbatim>\<open>y\<close>, \<^verbatim>\<open>z\<close>; the fields are named
  \<open>kx\<close>, \<open>ky\<close>, \<open>kz\<close> here, since a field name is a constant of the theory.
\<close>

record phone_box =
  x_min :: real
  y_min :: real
  width :: real
  height :: real
  confidence :: real
  category :: string

record keypoint =
  kx :: real
  ky :: real
  kz :: real
  visibility :: real
  name :: string

subsection \<open>Geometry\<close>

definition get_phone_center :: "phone_box \<Rightarrow> real \<times> real" where
  "get_phone_center phone_box =
     (let center_x = x_min phone_box + width phone_box / 2;
          center_y = y_min phone_box + height phone_box / 2
      in (center_x, center_y))"

definition distance :: "real \<times> real \<Rightarrow> real \<times> real \<Rightarrow> real" where
  "distance p1 p2 = sqrt ((fst p1 - fst p2)\<^sup>2 + (snd p1 - snd p2)\<^sup>2)"

subsection \<open>Ear proximity\<close>

definition EAR_THRESHOLD :: real where
  "EAR_THRESHOLD = 140"

definition CLOSE_THRESHOLD :: real where
  "CLOSE_THRESHOLD = 100"

definition is_phone_near_left_ear :: "phone_box \<Rightarrow> keypoint list \<Rightarrow> exception + bool" where
  "is_phone_near_left_ear phone_box keypoints =
     (if keypoints = [] \<or> length keypoints < 16 then Inr False
      else
        and_then (get_item keypoints 7) (\<lambda>left_ear.
        and_then (get_item keypoints 15) (\<lambda>left_wrist.
        and_then (get_item keypoints 11) (\<lambda>left_shoulder.
          if visibility left_ear < 0.3 then Inr False
          else
            let phone_center = get_phone_center phone_box;
                ear_pos = (kx left_ear, ky left_ear);
                dist_to_ear = distance phone_center ear_pos
            in if dist_to_ear < CLOSE_THRESHOLD then Inr True
               else
                 let wrist_raised =
                       (visibility left_wrist > 0.3 \<and> ky left_wrist < ky left_shoulder);
                     result = (dist_to_ear < EAR_THRESHOLD \<and> wrist_raised)
                 in Inr result))))"

definition is_phone_near_right_ear :: "phone_box \<Rightarrow> keypoint list \<Rightarrow> exception + bool" where
  "is_phone_near_right_ear phone_box keypoints =
     (if keypoints = [] \<or> length keypoints < 17 then Inr False
      else
        and_then (get_item keypoints 8) (\<lambda>right_ear.
        and_then (get_item keypoints 16) (\<lambda>right_wrist.
        and_then (get_item keypoints 12) (\<lambda>right_shoulder.
          if visibility right_ear < 0.3 then Inr False
          else
            let phone_center = get_phone_center phone_box;
                ear_pos = (kx right_ear, ky right_ear);
                dist_to_ear = distance phone_center ear_pos
            in if dist_to_ear < CLOSE_THRESHOLD then Inr True
               else
                 let wrist_raised =
                       (visibility right_wrist > 0.3 \<and> ky right_wrist < ky right_shoulder);
                     result = (dist_to_ear < EAR_THRESHOLD \<and> wrist_raised)
                 in Inr result))))"

subsection \<open>Front of face\<close>

definition FACE_MARGIN :: real where
  "FACE_MARGIN = 120"

definition NOSE_THRESHOLD :: real where
  "NOSE_THRESHOLD = 200"

text \<open>
  Python's \<^verbatim>\<open>min\<close> and \<^verbatim>\<open>max\<close> of a list: ValueError on the empty list, otherwise
  a left-to-right scan that replaces the item kept so far by a strictly smaller
  (respectively strictly larger) one.
\<close>

fun py_min :: "real list \<Rightarrow> exception + real" where
  "py_min [] = Inl ValueError"
| "py_min (v # vs) = Inr (fold (\<lambda>item kept. if item < kept then item else kept) vs v)"

fun py_max :: "real list \<Rightarrow> exception + real" where
  "py_max [] = Inl ValueError"
| "py_max (v # vs) = Inr (fold (\<lambda>item kept. if item > kept then item else kept) vs v)"

text \<open>The dictionary \<^verbatim>\<open>face_bbox\<close>, its keys prefixed with \<open>face_\<close>.\<close>

record face_bbox =
  face_x_min :: real
  face_x_max :: real
  face_y_min :: real
  face_y_max :: real

definition is_phone_in_front_of_face :: "phone_box \<Rightarrow> keypoint list \<Rightarrow> exception + bool" where
  "is_phone_in_front_of_face phone_box keypoints =
     (if keypoints = [] \<or> length keypoints < 17 then Inr False
      else
        and_then (get_item keypoints 0) (\<lambda>nose.
        and_then (get_item keypoints 2) (\<lambda>left_eye.
        and_then (get_item keypoints 5) (\<lambda>right_eye.
        and_then (get_item keypoints 7) (\<lambda>left_ear.
        and_then (get_item keypoints 8) (\<lambda>right_ear.
        and_then (get_item keypoints 15) (\<lambda>left_wrist.
        and_then (get_item keypoints 16) (\<lambda>right_wrist.
          if visibility nose < 0.3 then Inr False
          else
            let face_points = [nose, left_eye, right_eye, left_ear, right_ear];
                visible_face_points = filter (\<lambda>p. visibility p > 0.2) face_points
            in if visible_face_points = [] then Inr False
               else
                 let face_x_coords = map kx visible_face_points;
                     face_y_coords = map ky visible_face_points
                 in
                 and_then (py_min face_x_coords) (\<lambda>min_x.
                 and_then (py_max face_x_coords) (\<lambda>max_x.
                 and_then (py_min face_y_coords) (\<lambda>min_y.
                 and_then (py_max face_y_coords) (\<lambda>max_y.
                   let bbox = \<lparr>face_x_min = min_x - FACE_MARGIN,
                               face_x_max = max_x + FACE_MARGIN,
                               face_y_min = min_y - FACE_MARGIN,
                               face_y_max = max_y + FACE_MARGIN\<rparr>;
                       phone_center = get_phone_center phone_box;
                       phone_in_face_area =
                         (face_x_min bbox \<le> fst phone_center
                            \<and> fst phone_center \<le> face_x_max bbox
                            \<and> face_y_min bbox \<le> snd phone_center
                            \<and> snd phone_center \<le> face_y_max bbox);
                       nose_pos = (kx nose, ky nose);
                       dist_to_nose = distance phone_center nose_pos;
                       wrist_visible =
                         (visibility left_wrist > 0.3 \<or> visibility right_wrist > 0.3)
                   in Inr (phone_in_face_area \<and> dist_to_nose < NOSE_THRESHOLD
                             \<and> wrist_visible)))))))))))))"

subsection \<open>The proximity loop of the detect endpoint\<close>

text \<open>
  The \<^verbatim>\<open>for phone_box in phone_boxes\<close> loop of \<^verbatim>\<open>detect\<close> with its
  \<^verbatim>\<open>if\<close>/\<^verbatim>\<open>elif\<close>/\<^verbatim>\<open>elif\<close> chain. The loop state is the triple of the three local flags.
  The three predicates the chain calls are parameters of the loop, so that a call that is
  not made is visible: the result then does not depend on that predicate, not even on
  whether it would raise. The endpoint runs the loop on the three classifiers above.
\<close>

type_synonym classifier = "phone_box \<Rightarrow> keypoint list \<Rightarrow> exception + bool"

definition check_phone ::
  "classifier \<Rightarrow> classifier \<Rightarrow> classifier \<Rightarrow> keypoint list
     \<Rightarrow> bool \<times> bool \<times> bool \<Rightarrow> phone_box \<Rightarrow> exception + bool \<times> bool \<times> bool" where
  "check_phone near_left_ear near_right_ear in_front_of_face keypoints flags phone_box =
     (case flags of (phone_near_left, phone_near_right, phone_in_front) \<Rightarrow>
        and_then (near_left_ear phone_box keypoints) (\<lambda>is_left.
          if is_left then Inr (True, phone_near_right, phone_in_front)
          else
            and_then (near_right_ear phone_box keypoints) (\<lambda>is_right.
              if is_right then Inr (phone_near_left, True, phone_in_front)
              else
                and_then (in_front_of_face phone_box keypoints) (\<lambda>is_front.
                  if is_front then Inr (phone_near_left, phone_near_right, True)
                  else Inr (phone_near_left, phone_near_right, phone_in_front)))))"

fun check_phones ::
  "classifier \<Rightarrow> classifier \<Rightarrow> classifier \<Rightarrow> phone_box list \<Rightarrow> keypoint list
     \<Rightarrow> bool \<times> bool \<times> bool \<Rightarrow> exception + bool \<times> bool \<times> bool" where
  "check_phones near_left_ear near_right_ear in_front_of_face [] keypoints flags = Inr flags"
| "check_phones near_left_ear near_right_ear in_front_of_face (phone_box # rest) keypoints flags =
     and_then (check_phone near_left_ear near_right_ear in_front_of_face keypoints flags phone_box)
       (check_phones near_left_ear near_right_ear in_front_of_face rest keypoints)"

subsection \<open>Smoothing window\<close>

text \<open>
  \<^verbatim>\<open>collections.deque\<close> with a \<^verbatim>\<open>maxlen\<close>: the constructor raises ValueError on a
  negative \<^verbatim>\<open>maxlen\<close>; \<^verbatim>\<open>append\<close> adds on the right and, when the deque is then
  longer than \<^verbatim>\<open>maxlen\<close>, drops the leftmost item.
\<close>

record 'a deque =
  items :: "'a list"
  maxlen :: nat

definition deque_new :: "int \<Rightarrow> exception + 'a deque" where
  "deque_new m = (if m < 0 then Inl ValueError else Inr \<lparr>items = [], maxlen = nat m\<rparr>)"

definition deque_append :: "'a deque \<Rightarrow> 'a \<Rightarrow> 'a deque" where
  "deque_append dq v =
     (let xs = items dq @ [v]
      in dq\<lparr>items := (if maxlen dq < length xs then tl xs else xs)\<rparr>)"

text \<open>The dictionary appended by \<^verbatim>\<open>add_detection\<close>.\<close>

record detection =
  phone :: bool
  left_ear :: bool
  right_ear :: bool
  front_face :: bool
  timestamp :: real

record DetectionSmoothing =
  window_size :: int
  phone_detections :: "detection deque"
  last_detection_time :: real
  debounce_ms :: real

definition DetectionSmoothing_init :: "int \<Rightarrow> exception + DetectionSmoothing" where
  "DetectionSmoothing_init size_arg =
     and_then (deque_new size_arg) (\<lambda>dq.
       Inr \<lparr>window_size = size_arg, phone_detections = dq,
            last_detection_time = 0, debounce_ms = 300\<rparr>)"

text \<open>The last argument is the reading of \<^verbatim>\<open>time.time()\<close>.\<close>

definition add_detection ::
  "DetectionSmoothing \<Rightarrow> bool \<Rightarrow> bool \<Rightarrow> bool \<Rightarrow> bool \<Rightarrow> real \<Rightarrow> DetectionSmoothing" where
  "add_detection self phone_detected near_left near_right in_front time_time =
     self\<lparr>phone_detections :=
            deque_append (phone_detections self)
              \<lparr>phone = phone_detected,
               left_ear = near_left,
               right_ear = near_right,
               front_face = in_front,
               timestamp = time_time * 1000\<rparr>\<rparr>"

text \<open>The dictionary returned by \<^verbatim>\<open>get_smoothed_result\<close>, its keys prefixed with \<open>smoothed_\<close>.\<close>

record smoothed =
  smoothed_phone_detected :: bool
  smoothed_phone_near_left_ear :: bool
  smoothed_phone_near_right_ear :: bool
  smoothed_phone_in_front_of_face :: bool

definition get_smoothed_result :: "DetectionSmoothing \<Rightarrow> smoothed" where
  "get_smoothed_result self =
     (if items (phone_detections self) = [] then
        \<lparr>smoothed_phone_detected = False,
         smoothed_phone_near_left_ear = False,
         smoothed_phone_near_right_ear = False,
         smoothed_phone_in_front_of_face = False\<rparr>
      else
        let phone_votes = (\<Sum>d \<leftarrow> filter phone (items (phone_detections self)). (1::int));
            left_votes = (\<Sum>d \<leftarrow> filter left_ear (items (phone_detections self)). (1::int));
            right_votes = (\<Sum>d \<leftarrow> filter right_ear (items (phone_detections self)). (1::int));
            front_votes = (\<Sum>d \<leftarrow> filter front_face (items (phone_detections self)). (1::int));
            threshold = real_of_int (window_size self) / 2
        in \<lparr>smoothed_phone_detected = real_of_int phone_votes > threshold,
            smoothed_phone_near_left_ear = real_of_int left_votes > threshold,
            smoothed_phone_near_right_ear = real_of_int right_votes > threshold,
            smoothed_phone_in_front_of_face = real_of_int front_votes > threshold\<rparr>)"

text \<open>The module's global \<^verbatim>\<open>smoother = DetectionSmoothing(window_size=5)\<close>.\<close>

definition initial_smoother :: DetectionSmoothing where
  "initial_smoother =
     \<lparr>window_size = 5, phone_detections = \<lparr>items = [], maxlen = 5\<rparr>,
      last_detection_time = 0, debounce_ms = 300\<rparr>"

subsection \<open>The detect endpoint\<close>

text \<open>
  What the endpoint takes from outside the module is a record of the request's
  environment: the outcome of reading the upload into a buffer, OpenCV's decoding and
  colour conversion, the two MediaPipe detectors, the clock, and Python's \<^verbatim>\<open>str\<close> on
  an exception. Each of the calls either raises or returns; \<^verbatim>\<open>cv2.imdecode\<close> returns
  \<^verbatim>\<open>None\<close> for a buffer it cannot decode. \<open>processing_time_ms\<close> is the rounded
  difference of two clock readings.
\<close>

text \<open>The dictionary returned by \<^verbatim>\<open>detect_pose\<close>, its keys prefixed with \<open>pose_\<close>.\<close>

record pose_result =
  pose_keypoints :: "keypoint list"
  pose_image_width :: real
  pose_image_height :: real

record ('buf, 'img) environment =
  file_read :: "exception + 'buf"
  cv2_imdecode :: "'buf \<Rightarrow> exception + 'img option"
  cv2_cvtColor :: "'img \<Rightarrow> exception + 'img"
  detect_objects :: "'img \<Rightarrow> exception + phone_box list"
  detect_pose :: "'img \<Rightarrow> exception + pose_result option"
  time_time :: real
  processing_time_ms :: real
  exception_str :: "exception \<Rightarrow> string"

text \<open>
  The response model \<^verbatim>\<open>DetectionResult\<close>, its fields prefixed with \<open>res_\<close>. The boxes
  and the keypoints go into the response as the dictionaries the detectors built: the
  models \<^verbatim>\<open>BoundingBox\<close> and \<^verbatim>\<open>Keypoint\<close> have the fields of these dictionaries, the
  category of a box apart, which the response leaves out.
\<close>

record DetectionResult =
  res_phone_detected :: bool
  res_phone_boxes :: "phone_box list"
  res_pose_detected :: bool
  res_keypoints :: "keypoint list"
  res_phone_near_left_ear :: bool
  res_phone_near_right_ear :: bool
  res_phone_in_front_of_face :: bool
  res_face_detected :: bool
  res_processing_time_ms :: real
  res_backend :: string

text \<open>
  The local variables of \<^verbatim>\<open>detect\<close> when it reaches the comment
  \<^verbatim>\<open># Add to smoothing window\<close>.
\<close>

record frame =
  phone_boxes :: "phone_box list"
  pose_detected :: bool
  keypoints :: "keypoint list"
  face_detected :: bool
  phone_detected :: bool
  phone_near_left_ear :: bool
  phone_near_right_ear :: bool
  phone_in_front_of_face :: bool

text \<open>
  The body of the \<^verbatim>\<open>try\<close> block up to the push: no statement of it mentions
  \<^verbatim>\<open>smoother\<close>.
\<close>

definition detect_frame :: "('buf, 'img) environment \<Rightarrow> exception + frame" where
  "detect_frame env =
     and_then (file_read env) (\<lambda>contents.
     and_then (cv2_imdecode env contents) (\<lambda>decoded.
       case decoded of
         None \<Rightarrow> Inl (HTTPException 400 ''Invalid image format'')
       | Some image_bgr \<Rightarrow>
           and_then (cv2_cvtColor env image_bgr) (\<lambda>image_rgb.
           and_then (detect_objects env image_rgb) (\<lambda>phone_boxes.
           and_then (detect_pose env image_rgb) (\<lambda>pose_result.
             let pose_detected = (pose_result \<noteq> None);
                 keypoints = (case pose_result of Some r \<Rightarrow> pose_keypoints r | None \<Rightarrow> [])
             in
             and_then
               (if keypoints \<noteq> [] then
                  and_then (get_item keypoints 0) (\<lambda>nose. Inr (visibility nose > 0.2))
                else Inr False) (\<lambda>face_detected.
             let phone_detected = (length phone_boxes > 0)
             in
             and_then
               (if phone_detected \<and> pose_detected then
                  check_phones is_phone_near_left_ear is_phone_near_right_ear
                    is_phone_in_front_of_face phone_boxes keypoints (False, False, False)
                else Inr (False, False, False)) (\<lambda>flags.
             Inr \<lparr>phone_boxes = phone_boxes,
                  pose_detected = pose_detected,
                  keypoints = keypoints,
                  face_detected = face_detected,
                  phone_detected = phone_detected,
                  phone_near_left_ear = fst flags,
                  phone_near_right_ear = fst (snd flags),
                  phone_in_front_of_face = snd (snd flags)\<rparr>)))))))"

text \<open>The rest of the \<^verbatim>\<open>try\<close> block: the push, the read and the response.\<close>

definition detect_respond ::
  "('buf, 'img) environment \<Rightarrow> DetectionSmoothing \<Rightarrow> frame
     \<Rightarrow> (exception + DetectionResult) \<times> DetectionSmoothing" where
  "detect_respond env smoother fr =
     (let smoother' =
            add_detection smoother
              (phone_detected fr
                 \<and> (phone_near_left_ear fr \<or> phone_near_right_ear fr
                      \<or> phone_in_front_of_face fr))
              (phone_near_left_ear fr)
              (phone_near_right_ear fr)
              (phone_in_front_of_face fr)
              (time_time env);
          smoothed = get_smoothed_result smoother';
          response =
            \<lparr>res_phone_detected = smoothed_phone_detected smoothed,
             res_phone_boxes = phone_boxes fr,
             res_pose_detected = pose_detected fr,
             res_keypoints = keypoints fr,
             res_phone_near_left_ear = smoothed_phone_near_left_ear smoothed,
             res_phone_near_right_ear = smoothed_phone_near_right_ear smoothed,
             res_phone_in_front_of_face = smoothed_phone_in_front_of_face smoothed,
             res_face_detected = face_detected fr,
             res_processing_time_ms = processing_time_ms env,
             res_backend = ''mediapipe-cpu''\<rparr>
      in (Inr response, smoother'))"

text \<open>
  The endpoint: \<^verbatim>\<open>except Exception as e\<close> catches whatever the \<^verbatim>\<open>try\<close> block raises
  (every Python exception the block can raise, \<^verbatim>\<open>HTTPException\<close> too, is an instance
  of \<^verbatim>\<open>Exception\<close>) and raises the status 500 in its place. The result is the response
  or the exception that leaves the endpoint, with the smoother as the call leaves it.
\<close>

definition detect ::
  "('buf, 'img) environment \<Rightarrow> DetectionSmoothing
     \<Rightarrow> (exception + DetectionResult) \<times> DetectionSmoothing" where
  "detect env smoother =
     (case detect_frame env of
        Inl e \<Rightarrow>
          (Inl (HTTPException 500 (''Detection failed: '' @ exception_str env e)), smoother)
      | Inr fr \<Rightarrow>
          (case detect_respond env smoother fr of
             (Inl e, smoother') \<Rightarrow>
               (Inl (HTTPException 500 (''Detection failed: '' @ exception_str env e)),
                smoother')
           | (Inr response, smoother') \<Rightarrow> (Inr response, smoother')))"

subsection \<open>Example inputs\<close>

text \<open>
  Concrete boxes, poses and environments, on which the theorems below are instantiated.
  \<open>box_centred cx cy\<close> is a 40 by 60 box with centre \<open>(cx, cy)\<close>; \<open>box_centred 120 80\<close>
  is the box of the specification's end-to-end scenarios. A pose is given by a function
  from the landmark index, over the 33 landmarks of MediaPipe.
\<close>

definition box_centred :: "real \<Rightarrow> real \<Rightarrow> phone_box" where
  "box_centred cx cy =
     \<lparr>x_min = cx - 20, y_min = cy - 30, width = 40, height = 60,
      confidence = 0.9, category = ''cell phone''\<rparr>"

definition landmark :: "real \<Rightarrow> real \<Rightarrow> real \<Rightarrow> keypoint" where
  "landmark px py v = \<lparr>kx = px, ky = py, kz = 0, visibility = v, name = ''point''\<rparr>"

definition landmarks :: "(nat \<Rightarrow> keypoint) \<Rightarrow> keypoint list" where
  "landmarks f = map f [0..<33]"

text \<open>
  A face with the nose at \<open>(200, 100)\<close>, the ears at \<open>(130, 85)\<close> and \<open>(270, 85)\<close>, the
  shoulders at height 200, and the two wrists as given.
\<close>

definition pose_with_wrists :: "keypoint \<Rightarrow> keypoint \<Rightarrow> keypoint list" where
  "pose_with_wrists lw rw =
     landmarks (\<lambda>i.
       if i = 0 then landmark 200 100 0.9
       else if i = 2 then landmark 215 90 0.9
       else if i = 5 then landmark 185 90 0.9
       else if i = 7 then landmark 130 85 0.9
       else if i = 8 then landmark 270 85 0.9
       else if i = 11 then landmark 100 200 0.9
       else if i = 12 then landmark 300 200 0.9
       else if i = 15 then lw
       else if i = 16 then rw
       else landmark 0 0 0)"

text \<open>Both wrists barely visible and below the shoulders.\<close>

definition pose_hidden_wrists :: "keypoint list" where
  "pose_hidden_wrists = pose_with_wrists (landmark 90 300 0.1) (landmark 310 300 0.1)"

text \<open>Both wrists visible and above the shoulders.\<close>

definition pose_raised_wrists :: "keypoint list" where
  "pose_raised_wrists = pose_with_wrists (landmark 120 40 0.9) (landmark 280 40 0.9)"

text \<open>
  An environment in which every outside call returns: the detectors find the given boxes
  and the given pose.
\<close>

definition env_returning ::
  "phone_box list \<Rightarrow> pose_result option \<Rightarrow> (unit, unit) environment" where
  "env_returning boxes pose =
     \<lparr>file_read = Inr (),
      cv2_imdecode = (\<lambda>_. Inr (Some ())),
      cv2_cvtColor = (\<lambda>_. Inr ()),
      detect_objects = (\<lambda>_. Inr boxes),
      detect_pose = (\<lambda>_. Inr pose),
      time_time = 0,
      processing_time_ms = 0,
      exception_str = (\<lambda>_. ''exception'')\<rparr>"

definition found_pose :: "keypoint list \<Rightarrow> pose_result option" where
  "found_pose kps =
     Some \<lparr>pose_keypoints = kps, pose_image_width = 640, pose_image_height = 480\<rparr>"

subsection \<open>The face region as the specification words it\<close>

text \<open>
  The facial keypoints (nose, left eye, right eye, left ear, right ear) whose visibility
  is above 0.2, as a set, and the region spanned by the smallest and the largest of their
  coordinates, widened by 120 on every side, bounds included. The classifier above
  computes with lists and Python's \<^verbatim>\<open>min\<close> and \<^verbatim>\<open>max\<close>; these two definitions are what
  it is compared with.
\<close>

definition visible_facial_keypoints :: "keypoint list \<Rightarrow> keypoint set" where
  "visible_facial_keypoints kps =
     {p \<in> {kps ! 0, kps ! 2, kps ! 5, kps ! 7, kps ! 8}. 0.2 < visibility p}"

definition in_face_region :: "real \<times> real \<Rightarrow> keypoint set \<Rightarrow> bool" where
  "in_face_region c V =
     (Min (kx ` V) - 120 \<le> fst c \<and> fst c \<le> Max (kx ` V) + 120 \<and>
      Min (ky ` V) - 120 \<le> snd c \<and> snd c \<le> Max (ky ` V) + 120)"

text \<open>A pose in which no landmark is visible enough to count.\<close>

definition pose_no_face :: "keypoint list" where
  "pose_no_face = landmarks (\<lambda>i. landmark 50 50 0.1)"

subsection \<open>Sequences of pushes\<close>

text \<open>
  Successive calls of \<^verbatim>\<open>add_detection\<close>, one for each tuple of arguments in the list:
  the four flags and the clock reading of the call.
\<close>

type_synonym push = "bool \<times> bool \<times> bool \<times> bool \<times> real"

definition entry :: "push \<Rightarrow> detection" where
  "entry p =
     (case p of (detected, near_left, near_right, in_front, now) \<Rightarrow>
        \<lparr>phone = detected, left_ear = near_left, right_ear = near_right,
         front_face = in_front, timestamp = now * 1000\<rparr>)"

fun add_detections :: "DetectionSmoothing \<Rightarrow> push list \<Rightarrow> DetectionSmoothing" where
  "add_detections self [] = self"
| "add_detections self ((detected, near_left, near_right, in_front, now) # rest) =
     add_detections (add_detection self detected near_left near_right in_front now) rest"

text \<open>The dictionary \<^verbatim>\<open>get_smoothed_result\<close> returns when no channel has a majority.\<close>

definition all_false :: smoothed where
  "all_false =
     \<lparr>smoothed_phone_detected = False,
      smoothed_phone_near_left_ear = False,
      smoothed_phone_near_right_ear = False,
      smoothed_phone_in_front_of_face = False\<rparr>"

text \<open>A classifier that raises whenever it is called.\<close>

definition raising :: classifier where
  "raising box kps = Inl (Error ''called'')"

subsection \<open>The frame in closed form\<close>

text \<open>
  What the local variables of \<^verbatim>\<open>detect\<close> hold at the push, as a function of the boxes and
  the pose the two detectors returned: the loop runs only when there is a box and a pose,
  and then each flag is a disjunction over the boxes. That \<open>detect_frame\<close> computes this
  frame is proved below.
\<close>

definition frame_of :: "phone_box list \<Rightarrow> pose_result option \<Rightarrow> frame" where
  "frame_of boxes pose =
     (let kps = (case pose of Some r \<Rightarrow> pose_keypoints r | None \<Rightarrow> []);
          run = (boxes \<noteq> [] \<and> pose \<noteq> None)
      in \<lparr>phone_boxes = boxes,
          pose_detected = (pose \<noteq> None),
          keypoints = kps,
          face_detected = (kps \<noteq> [] \<and> 0.2 < visibility (kps ! 0)),
          phone_detected = (boxes \<noteq> []),
          phone_near_left_ear =
            (run \<and> (\<exists>b \<in> set boxes. is_phone_near_left_ear b kps = Inr True)),
          phone_near_right_ear =
            (run \<and> (\<exists>b \<in> set boxes. is_phone_near_left_ear b kps = Inr False \<and>
                                      is_phone_near_right_ear b kps = Inr True)),
          phone_in_front_of_face =
            (run \<and> (\<exists>b \<in> set boxes. is_phone_near_left_ear b kps = Inr False \<and>
                                      is_phone_near_right_ear b kps = Inr False \<and>
                                      is_phone_in_front_of_face b kps = Inr True))\<rparr>)"

text \<open>An environment in which OpenCV cannot decode the upload.\<close>

definition env_undecodable :: "(unit, unit) environment" where
  "env_undecodable = (env_returning [] None)\<lparr>cv2_imdecode := (\<lambda>_. Inr None)\<rparr>"

section \<open>Properties\<close>

subsection \<open>Auxiliary facts\<close>

lemma and_then_Inr [simp]: "and_then (Inr v) f = f v"
  by (simp add: and_then_def)

lemma and_then_Inl [simp]: "and_then (Inl e) f = Inl e"
  by (simp add: and_then_def)

lemma get_item_in_range [simp]: "i < length xs \<Longrightarrow> get_item xs i = Inr (xs ! i)"
  by (simp add: get_item_def)

text \<open>
  The two ear classifiers never raise: each returns the truth value of its guards and
  distance tests.
\<close>

lemma is_phone_near_left_ear_eq:
  "is_phone_near_left_ear box kps =
     Inr (16 \<le> length kps \<and> 0.3 \<le> visibility (kps ! 7) \<and>
          (distance (get_phone_center box) (kx (kps ! 7), ky (kps ! 7)) < 100 \<or>
           distance (get_phone_center box) (kx (kps ! 7), ky (kps ! 7)) < 140 \<and>
           0.3 < visibility (kps ! 15) \<and> ky (kps ! 15) < ky (kps ! 11)))"
  by (auto simp add: is_phone_near_left_ear_def EAR_THRESHOLD_def CLOSE_THRESHOLD_def Let_def)

lemma is_phone_near_right_ear_eq:
  "is_phone_near_right_ear box kps =
     Inr (17 \<le> length kps \<and> 0.3 \<le> visibility (kps ! 8) \<and>
          (distance (get_phone_center box) (kx (kps ! 8), ky (kps ! 8)) < 100 \<or>
           distance (get_phone_center box) (kx (kps ! 8), ky (kps ! 8)) < 140 \<and>
           0.3 < visibility (kps ! 16) \<and> ky (kps ! 16) < ky (kps ! 12)))"
  by (auto simp add: is_phone_near_right_ear_def EAR_THRESHOLD_def CLOSE_THRESHOLD_def Let_def)

text \<open>Evaluation of the example inputs.\<close>

lemma centre_box_centred [simp]: "get_phone_center (box_centred cx cy) = (cx, cy)"
  by (simp add: get_phone_center_def box_centred_def)

lemma landmark_sel [simp]:
  "kx (landmark px py v) = px" "ky (landmark px py v) = py" "visibility (landmark px py v) = v"
  by (simp_all add: landmark_def)

lemma length_pose_with_wrists [simp]: "length (pose_with_wrists lw rw) = 33"
  by (simp add: pose_with_wrists_def landmarks_def)

lemma nth_pose_with_wrists [simp]:
  "pose_with_wrists lw rw ! 0 = landmark 200 100 0.9"
  "pose_with_wrists lw rw ! 2 = landmark 215 90 0.9"
  "pose_with_wrists lw rw ! 5 = landmark 185 90 0.9"
  "pose_with_wrists lw rw ! 7 = landmark 130 85 0.9"
  "pose_with_wrists lw rw ! 8 = landmark 270 85 0.9"
  "pose_with_wrists lw rw ! 11 = landmark 100 200 0.9"
  "pose_with_wrists lw rw ! 12 = landmark 300 200 0.9"
  "pose_with_wrists lw rw ! 15 = lw"
  "pose_with_wrists lw rw ! 16 = rw"
  by (simp_all add: pose_with_wrists_def landmarks_def)

subsection \<open>The ear classifiers\<close>

text \<open>
  C6. For every phone box and every keypoint sequence shorter than 16, the empty one
  included, both ear classifiers return false; they return it as a value, so neither has
  raised IndexError on the way.
\<close>

theorem short_keypoints_not_near_ear:
  "length kps < 16 \<Longrightarrow>
     is_phone_near_left_ear box kps = Inr False \<and>
     is_phone_near_right_ear box kps = Inr False"
  by (simp add: is_phone_near_left_ear_def is_phone_near_right_ear_def)

theorem short_keypoints_not_near_ear_witness:
  "length (take 15 pose_raised_wrists) < 16 \<and>
   is_phone_near_left_ear (box_centred 130 85) (take 15 pose_raised_wrists) = Inr False \<and>
   is_phone_near_right_ear (box_centred 130 85) (take 15 pose_raised_wrists) = Inr False \<and>
   is_phone_near_left_ear (box_centred 130 85) [] = Inr False \<and>
   is_phone_near_right_ear (box_centred 130 85) [] = Inr False"
proof -
  have short: "length (take 15 pose_raised_wrists) < 16"
    by (simp add: pose_raised_wrists_def)
  have empty: "length ([] :: keypoint list) < 16"
    by simp
  show ?thesis
    using short
      short_keypoints_not_near_ear [OF short, of "box_centred 130 85"]
      short_keypoints_not_near_ear [OF empty, of "box_centred 130 85"]
    by simp
qed

text \<open>
  C4. With a keypoint sequence that passes the length guard (16 for the left ear, 17 for
  the right), an ear visibility of at least 0.3 and the centre of the phone box closer
  than \<open>CLOSE_THRESHOLD\<close> to the ear, the classifier returns true, whatever the wrist
  and the shoulder are; so it does when the centre is the ear position itself.
\<close>

theorem close_to_ear_is_near:
  "(16 \<le> length kps \<and> 0.3 \<le> visibility (kps ! 7) \<and>
      distance (get_phone_center box) (kx (kps ! 7), ky (kps ! 7)) < CLOSE_THRESHOLD
      \<longrightarrow> is_phone_near_left_ear box kps = Inr True) \<and>
   (17 \<le> length kps \<and> 0.3 \<le> visibility (kps ! 8) \<and>
      distance (get_phone_center box) (kx (kps ! 8), ky (kps ! 8)) < CLOSE_THRESHOLD
      \<longrightarrow> is_phone_near_right_ear box kps = Inr True) \<and>
   (16 \<le> length kps \<and> 0.3 \<le> visibility (kps ! 7) \<and>
      get_phone_center box = (kx (kps ! 7), ky (kps ! 7))
      \<longrightarrow> is_phone_near_left_ear box kps = Inr True) \<and>
   (17 \<le> length kps \<and> 0.3 \<le> visibility (kps ! 8) \<and>
      get_phone_center box = (kx (kps ! 8), ky (kps ! 8))
      \<longrightarrow> is_phone_near_right_ear box kps = Inr True)"
  by (simp add: is_phone_near_left_ear_eq is_phone_near_right_ear_eq CLOSE_THRESHOLD_def
      distance_def)

theorem close_to_ear_is_near_witness:
  "16 \<le> length pose_hidden_wrists \<and>
   0.3 \<le> visibility (pose_hidden_wrists ! 7) \<and>
   distance (get_phone_center (box_centred 120 80))
     (kx (pose_hidden_wrists ! 7), ky (pose_hidden_wrists ! 7)) < CLOSE_THRESHOLD \<and>
   is_phone_near_left_ear (box_centred 120 80) pose_hidden_wrists = Inr True \<and>
   17 \<le> length pose_hidden_wrists \<and>
   0.3 \<le> visibility (pose_hidden_wrists ! 8) \<and>
   distance (get_phone_center (box_centred 260 80))
     (kx (pose_hidden_wrists ! 8), ky (pose_hidden_wrists ! 8)) < CLOSE_THRESHOLD \<and>
   is_phone_near_right_ear (box_centred 260 80) pose_hidden_wrists = Inr True \<and>
   get_phone_center (box_centred 130 85) =
     (kx (pose_hidden_wrists ! 7), ky (pose_hidden_wrists ! 7)) \<and>
   is_phone_near_left_ear (box_centred 130 85) pose_hidden_wrists = Inr True \<and>
   get_phone_center (box_centred 270 85) =
     (kx (pose_hidden_wrists ! 8), ky (pose_hidden_wrists ! 8)) \<and>
   is_phone_near_right_ear (box_centred 270 85) pose_hidden_wrists = Inr True \<and>
   \<not> 0.3 < visibility (pose_hidden_wrists ! 15) \<and>
   \<not> 0.3 < visibility (pose_hidden_wrists ! 16)"
proof -
  have len: "16 \<le> length pose_hidden_wrists" "17 \<le> length pose_hidden_wrists"
    by (simp_all add: pose_hidden_wrists_def)
  have vis: "0.3 \<le> visibility (pose_hidden_wrists ! 7)"
    "0.3 \<le> visibility (pose_hidden_wrists ! 8)"
    by (simp_all add: pose_hidden_wrists_def)
  have wrists: "\<not> 0.3 < visibility (pose_hidden_wrists ! 15)"
    "\<not> 0.3 < visibility (pose_hidden_wrists ! 16)"
    by (simp_all add: pose_hidden_wrists_def)
  have left_close:
    "distance (get_phone_center (box_centred 120 80))
       (kx (pose_hidden_wrists ! 7), ky (pose_hidden_wrists ! 7)) < CLOSE_THRESHOLD"
    by (simp add: pose_hidden_wrists_def distance_def CLOSE_THRESHOLD_def real_less_lsqrt)
  have right_close:
    "distance (get_phone_center (box_centred 260 80))
       (kx (pose_hidden_wrists ! 8), ky (pose_hidden_wrists ! 8)) < CLOSE_THRESHOLD"
    by (simp add: pose_hidden_wrists_def distance_def CLOSE_THRESHOLD_def real_less_lsqrt)
  have left_at:
    "get_phone_center (box_centred 130 85) =
       (kx (pose_hidden_wrists ! 7), ky (pose_hidden_wrists ! 7))"
    by (simp add: pose_hidden_wrists_def)
  have right_at:
    "get_phone_center (box_centred 270 85) =
       (kx (pose_hidden_wrists ! 8), ky (pose_hidden_wrists ! 8))"
    by (simp add: pose_hidden_wrists_def)
  show ?thesis
    using len vis wrists left_close right_close left_at right_at
      close_to_ear_is_near [of pose_hidden_wrists "box_centred 120 80"]
      close_to_ear_is_near [of pose_hidden_wrists "box_centred 260 80"]
      close_to_ear_is_near [of pose_hidden_wrists "box_centred 130 85"]
      close_to_ear_is_near [of pose_hidden_wrists "box_centred 270 85"]
    by blast
qed

text \<open>
  C5. With a keypoint sequence that passes the length guard, an ear visibility of at least
  0.3 and a distance from the centre of the phone box to the ear of at least 100, the
  classifier returns true exactly when the distance is below \<open>EAR_THRESHOLD\<close> and the
  wrist of that side is raised: its visibility is above 0.3 and its \<open>y\<close> is smaller than
  the shoulder's. So a distance of exactly 140 gives false, and a distance of 139.99 with
  a raised wrist gives true.
\<close>

theorem beyond_close_needs_raised_wrist:
  "(16 \<le> length kps \<and> 0.3 \<le> visibility (kps ! 7) \<and>
      100 \<le> distance (get_phone_center box) (kx (kps ! 7), ky (kps ! 7))
      \<longrightarrow> is_phone_near_left_ear box kps =
            Inr (distance (get_phone_center box) (kx (kps ! 7), ky (kps ! 7)) < EAR_THRESHOLD \<and>
                 0.3 < visibility (kps ! 15) \<and> ky (kps ! 15) < ky (kps ! 11))) \<and>
   (17 \<le> length kps \<and> 0.3 \<le> visibility (kps ! 8) \<and>
      100 \<le> distance (get_phone_center box) (kx (kps ! 8), ky (kps ! 8))
      \<longrightarrow> is_phone_near_right_ear box kps =
            Inr (distance (get_phone_center box) (kx (kps ! 8), ky (kps ! 8)) < EAR_THRESHOLD \<and>
                 0.3 < visibility (kps ! 16) \<and> ky (kps ! 16) < ky (kps ! 12))) \<and>
   (16 \<le> length kps \<and> 0.3 \<le> visibility (kps ! 7) \<and>
      distance (get_phone_center box) (kx (kps ! 7), ky (kps ! 7)) = 140
      \<longrightarrow> is_phone_near_left_ear box kps = Inr False) \<and>
   (17 \<le> length kps \<and> 0.3 \<le> visibility (kps ! 8) \<and>
      distance (get_phone_center box) (kx (kps ! 8), ky (kps ! 8)) = 140
      \<longrightarrow> is_phone_near_right_ear box kps = Inr False) \<and>
   (16 \<le> length kps \<and> 0.3 \<le> visibility (kps ! 7) \<and>
      distance (get_phone_center box) (kx (kps ! 7), ky (kps ! 7)) = 139.99 \<and>
      0.3 < visibility (kps ! 15) \<and> ky (kps ! 15) < ky (kps ! 11)
      \<longrightarrow> is_phone_near_left_ear box kps = Inr True) \<and>
   (17 \<le> length kps \<and> 0.3 \<le> visibility (kps ! 8) \<and>
      distance (get_phone_center box) (kx (kps ! 8), ky (kps ! 8)) = 139.99 \<and>
      0.3 < visibility (kps ! 16) \<and> ky (kps ! 16) < ky (kps ! 12)
      \<longrightarrow> is_phone_near_right_ear box kps = Inr True)"
  by (simp add: is_phone_near_left_ear_eq is_phone_near_right_ear_eq EAR_THRESHOLD_def)

text \<open>
  The ears of the example pose are 140 apart, so a box centred on one ear is at distance
  140 from the other, and one moved by 0.01 towards it is at distance 139.99.
\<close>

theorem beyond_close_needs_raised_wrist_witness:
  "16 \<le> length pose_raised_wrists \<and> 17 \<le> length pose_raised_wrists \<and>
   0.3 \<le> visibility (pose_raised_wrists ! 7) \<and>
   0.3 \<le> visibility (pose_raised_wrists ! 8) \<and>
   0.3 < visibility (pose_raised_wrists ! 15) \<and>
   ky (pose_raised_wrists ! 15) < ky (pose_raised_wrists ! 11) \<and>
   0.3 < visibility (pose_raised_wrists ! 16) \<and>
   ky (pose_raised_wrists ! 16) < ky (pose_raised_wrists ! 12) \<and>
   distance (get_phone_center (box_centred 270 85))
     (kx (pose_raised_wrists ! 7), ky (pose_raised_wrists ! 7)) = 140 \<and>
   is_phone_near_left_ear (box_centred 270 85) pose_raised_wrists = Inr False \<and>
   distance (get_phone_center (box_centred 130 85))
     (kx (pose_raised_wrists ! 8), ky (pose_raised_wrists ! 8)) = 140 \<and>
   is_phone_near_right_ear (box_centred 130 85) pose_raised_wrists = Inr False \<and>
   distance (get_phone_center (box_centred 269.99 85))
     (kx (pose_raised_wrists ! 7), ky (pose_raised_wrists ! 7)) = 139.99 \<and>
   is_phone_near_left_ear (box_centred 269.99 85) pose_raised_wrists = Inr True \<and>
   distance (get_phone_center (box_centred 130.01 85))
     (kx (pose_raised_wrists ! 8), ky (pose_raised_wrists ! 8)) = 139.99 \<and>
   is_phone_near_right_ear (box_centred 130.01 85) pose_raised_wrists = Inr True \<and>
   100 \<le> distance (get_phone_center (box_centred 269.99 85))
     (kx (pose_hidden_wrists ! 7), ky (pose_hidden_wrists ! 7)) \<and>
   16 \<le> length pose_hidden_wrists \<and>
   0.3 \<le> visibility (pose_hidden_wrists ! 7) \<and>
   is_phone_near_left_ear (box_centred 269.99 85) pose_hidden_wrists = Inr False"
proof -
  have len: "16 \<le> length pose_raised_wrists" "17 \<le> length pose_raised_wrists"
    "16 \<le> length pose_hidden_wrists"
    by (simp_all add: pose_raised_wrists_def pose_hidden_wrists_def)
  have vis: "0.3 \<le> visibility (pose_raised_wrists ! 7)"
    "0.3 \<le> visibility (pose_raised_wrists ! 8)"
    "0.3 \<le> visibility (pose_hidden_wrists ! 7)"
    by (simp_all add: pose_raised_wrists_def pose_hidden_wrists_def)
  have raised: "0.3 < visibility (pose_raised_wrists ! 15)"
    "ky (pose_raised_wrists ! 15) < ky (pose_raised_wrists ! 11)"
    "0.3 < visibility (pose_raised_wrists ! 16)"
    "ky (pose_raised_wrists ! 16) < ky (pose_raised_wrists ! 12)"
    by (simp_all add: pose_raised_wrists_def)
  have hidden: "\<not> 0.3 < visibility (pose_hidden_wrists ! 15)"
    by (simp add: pose_hidden_wrists_def)
  have at_140:
    "distance (get_phone_center (box_centred 270 85))
       (kx (pose_raised_wrists ! 7), ky (pose_raised_wrists ! 7)) = 140"
    "distance (get_phone_center (box_centred 130 85))
       (kx (pose_raised_wrists ! 8), ky (pose_raised_wrists ! 8)) = 140"
    by (simp_all add: pose_raised_wrists_def distance_def)
  have below_140:
    "distance (get_phone_center (box_centred 269.99 85))
       (kx (pose_raised_wrists ! 7), ky (pose_raised_wrists ! 7)) = 139.99"
    "distance (get_phone_center (box_centred 130.01 85))
       (kx (pose_raised_wrists ! 8), ky (pose_raised_wrists ! 8)) = 139.99"
    by (simp_all add: pose_raised_wrists_def distance_def)
  have hidden_dist:
    "distance (get_phone_center (box_centred 269.99 85))
       (kx (pose_hidden_wrists ! 7), ky (pose_hidden_wrists ! 7)) = 139.99"
    by (simp add: pose_hidden_wrists_def distance_def)
  then have far:
    "100 \<le> distance (get_phone_center (box_centred 269.99 85))
       (kx (pose_hidden_wrists ! 7), ky (pose_hidden_wrists ! 7))"
    by simp
  have no_wrist: "is_phone_near_left_ear (box_centred 269.99 85) pose_hidden_wrists = Inr False"
    using beyond_close_needs_raised_wrist [of pose_hidden_wrists "box_centred 269.99 85"]
      len(3) vis(3) far hidden
    by simp
  have left_140: "is_phone_near_left_ear (box_centred 270 85) pose_raised_wrists = Inr False"
    using beyond_close_needs_raised_wrist [of pose_raised_wrists "box_centred 270 85"]
      len(1) vis(1) at_140(1)
    by blast
  have right_140: "is_phone_near_right_ear (box_centred 130 85) pose_raised_wrists = Inr False"
    using beyond_close_needs_raised_wrist [of pose_raised_wrists "box_centred 130 85"]
      len(2) vis(2) at_140(2)
    by blast
  have left_below:
    "is_phone_near_left_ear (box_centred 269.99 85) pose_raised_wrists = Inr True"
    using beyond_close_needs_raised_wrist [of pose_raised_wrists "box_centred 269.99 85"]
      len(1) vis(1) raised(1,2) below_140(1)
    by blast
  have right_below:
    "is_phone_near_right_ear (box_centred 130.01 85) pose_raised_wrists = Inr True"
    using beyond_close_needs_raised_wrist [of pose_raised_wrists "box_centred 130.01 85"]
      len(2) vis(2) raised(3,4) below_140(2)
    by blast
  show ?thesis
    by (intro conjI len vis raised at_140 below_140 far no_wrist
        left_140 right_140 left_below right_below)
qed

subsection \<open>The front-of-face classifier\<close>

lemma py_min_fold:
  "fold (\<lambda>item kept. if item < kept then item else kept) vs v = Min (insert v (set vs))"
proof -
  have "fold (\<lambda>item kept. if item < kept then item else kept) vs v = fold min vs v"
  proof (induction vs arbitrary: v)
    case Nil
    show ?case by simp
  next
    case (Cons a vs)
    have "(if a < v then a else v) = min a v"
      by (auto simp add: min_def)
    then show ?case
      using Cons.IH [of "min a v"] by simp
  qed
  also have "\<dots> = Min (set (v # vs))"
    by (rule Min.set_eq_fold [symmetric])
  finally show ?thesis by simp
qed

lemma py_max_fold:
  "fold (\<lambda>item kept. if item > kept then item else kept) vs v = Max (insert v (set vs))"
proof -
  have "fold (\<lambda>item kept. if item > kept then item else kept) vs v = fold max vs v"
  proof (induction vs arbitrary: v)
    case Nil
    show ?case by simp
  next
    case (Cons a vs)
    have "(if a > v then a else v) = max a v"
      by (auto simp add: max_def)
    then show ?case
      using Cons.IH [of "max a v"] by simp
  qed
  also have "\<dots> = Max (set (v # vs))"
    by (rule Max.set_eq_fold [symmetric])
  finally show ?thesis by simp
qed

lemma py_min_Cons: "py_min (v # vs) = Inr (Min (insert v (set vs)))"
  by (simp add: py_min_fold)

lemma py_max_Cons: "py_max (v # vs) = Inr (Max (insert v (set vs)))"
  by (simp add: py_max_fold)

lemma visible_facial_keypoints_nose:
  "0.3 \<le> visibility (kps ! 0) \<Longrightarrow>
     visible_facial_keypoints kps =
       insert (kps ! 0)
         (set (filter (\<lambda>p. 0.2 < visibility p) [kps ! 2, kps ! 5, kps ! 7, kps ! 8]))"
  by (auto simp add: visible_facial_keypoints_def)

lemma is_phone_in_front_of_face_eq:
  assumes "17 \<le> length kps" and "0.3 \<le> visibility (kps ! 0)"
  shows "is_phone_in_front_of_face box kps =
     Inr (in_face_region (get_phone_center box) (visible_facial_keypoints kps) \<and>
          distance (get_phone_center box) (kx (kps ! 0), ky (kps ! 0)) < 200 \<and>
          (0.3 < visibility (kps ! 15) \<or> 0.3 < visibility (kps ! 16)))"
proof -
  define r where "r = filter (\<lambda>p. 0.2 < visibility p) [kps ! 2, kps ! 5, kps ! 7, kps ! 8]"
  have nose: "0.2 < visibility (kps ! 0)" "\<not> visibility (kps ! 0) < 0.3"
    using assms(2) by simp_all
  have vis: "filter (\<lambda>p. 0.2 < visibility p) [kps ! 0, kps ! 2, kps ! 5, kps ! 7, kps ! 8]
      = kps ! 0 # r"
    using nose(1) by (simp add: r_def)
  have V: "visible_facial_keypoints kps = insert (kps ! 0) (set r)"
    unfolding r_def using assms(2) by (rule visible_facial_keypoints_nose)
  have guard: "\<not> (kps = [] \<or> length kps < 17)"
    using assms(1) by auto
  have items: "get_item kps 0 = Inr (kps ! 0)" "get_item kps 2 = Inr (kps ! 2)"
    "get_item kps 5 = Inr (kps ! 5)" "get_item kps 7 = Inr (kps ! 7)"
    "get_item kps 8 = Inr (kps ! 8)" "get_item kps 15 = Inr (kps ! 15)"
    "get_item kps 16 = Inr (kps ! 16)"
    using assms(1) by (auto simp add: get_item_def)
  have "is_phone_in_front_of_face box kps =
     Inr ((Min (insert (kx (kps ! 0)) (set (map kx r))) - FACE_MARGIN \<le> fst (get_phone_center box)
           \<and> fst (get_phone_center box) \<le> Max (insert (kx (kps ! 0)) (set (map kx r))) + FACE_MARGIN
           \<and> Min (insert (ky (kps ! 0)) (set (map ky r))) - FACE_MARGIN \<le> snd (get_phone_center box)
           \<and> snd (get_phone_center box) \<le> Max (insert (ky (kps ! 0)) (set (map ky r))) + FACE_MARGIN)
          \<and> distance (get_phone_center box) (kx (kps ! 0), ky (kps ! 0)) < NOSE_THRESHOLD
          \<and> (0.3 < visibility (kps ! 15) \<or> 0.3 < visibility (kps ! 16)))"
    unfolding is_phone_in_front_of_face_def
    by (simp only: guard items and_then_Inr if_False nose Let_def vis list.distinct list.map
        py_min_Cons py_max_Cons face_bbox.simps)
  then show ?thesis
    by (simp add: V in_face_region_def FACE_MARGIN_def NOSE_THRESHOLD_def)
qed
lemma is_phone_in_front_of_face_hidden_nose:
  "visibility (kps ! 0) < 0.3 \<Longrightarrow> is_phone_in_front_of_face box kps = Inr False"
proof (cases "kps = [] \<or> length kps < 17")
  case True
  then show ?thesis
    by (simp add: is_phone_in_front_of_face_def)
next
  case False
  then have items: "get_item kps 0 = Inr (kps ! 0)" "get_item kps 2 = Inr (kps ! 2)"
    "get_item kps 5 = Inr (kps ! 5)" "get_item kps 7 = Inr (kps ! 7)"
    "get_item kps 8 = Inr (kps ! 8)" "get_item kps 15 = Inr (kps ! 15)"
    "get_item kps 16 = Inr (kps ! 16)"
    by (auto simp add: get_item_def)
  assume "visibility (kps ! 0) < 0.3"
  then show ?thesis
    unfolding is_phone_in_front_of_face_def
    by (simp only: False items and_then_Inr if_False if_True)
qed

lemma is_phone_in_front_of_face_total: "\<exists>b. is_phone_in_front_of_face box kps = Inr b"
proof (cases "0.3 \<le> visibility (kps ! 0)")
  case True
  show ?thesis
  proof (cases "17 \<le> length kps")
    case True
    with \<open>0.3 \<le> visibility (kps ! 0)\<close> show ?thesis
      using is_phone_in_front_of_face_eq [of kps box] by blast
  next
    case False
    then have "is_phone_in_front_of_face box kps = Inr False"
      by (simp add: is_phone_in_front_of_face_def)
    then show ?thesis by blast
  qed
next
  case False
  then have "visibility (kps ! 0) < 0.3"
    by simp
  then have "is_phone_in_front_of_face box kps = Inr False"
    by (rule is_phone_in_front_of_face_hidden_nose)
  then show ?thesis by blast
qed

lemma visible_facial_keypoints_update:
  assumes "17 \<le> length kps" and "i \<in> {2, 5, 7, 8}"
    and "visibility (kps ! i) \<le> 0.2" and "visibility q \<le> 0.2"
  shows "visible_facial_keypoints (kps[i := q]) = visible_facial_keypoints kps"
proof -
  have hidden: "\<not> 0.2 < visibility (kps ! i)" "\<not> 0.2 < visibility q"
    using assms(3,4) by simp_all
  have len: "2 < length kps" "5 < length kps" "7 < length kps" "8 < length kps"
    using assms(1) by simp_all
  consider "i = 2" | "i = 5" | "i = 7" | "i = 8"
    using assms(2) by blast
  then show ?thesis
  proof cases
    case 1
    with hidden len show ?thesis
      unfolding visible_facial_keypoints_def by auto
  next
    case 2
    with hidden len show ?thesis
      unfolding visible_facial_keypoints_def by auto
  next
    case 3
    with hidden len show ?thesis
      unfolding visible_facial_keypoints_def by auto
  next
    case 4
    with hidden len show ?thesis
      unfolding visible_facial_keypoints_def by auto
  qed
qed

lemma visible_facial_keypoints_example:
  "visible_facial_keypoints (pose_with_wrists lw rw) =
     {landmark 200 100 0.9, landmark 215 90 0.9, landmark 185 90 0.9,
      landmark 130 85 0.9, landmark 270 85 0.9}"
  by (auto simp add: visible_facial_keypoints_def)

lemma in_face_region_example:
  "in_face_region (cx, cy) (visible_facial_keypoints (pose_with_wrists lw rw)) =
     (10 \<le> cx \<and> cx \<le> 390 \<and> - 35 \<le> cy \<and> cy \<le> 220)"
  by (simp add: visible_facial_keypoints_example in_face_region_def)

lemma pose_no_face_eval:
  "length pose_no_face = 33"
  "visible_facial_keypoints pose_no_face = {}"
  by (auto simp add: pose_no_face_def landmarks_def visible_facial_keypoints_def)

text \<open>
  C3. With at least 17 keypoints, a nose visibility of at least 0.3 and some facial
  keypoint of visibility above 0.2, the classifier returns true exactly when the centre of
  the phone box is in the face region (bounds included), its distance to the nose is
  below 200, and one of the wrists has a visibility above 0.3. When no facial keypoint has
  a visibility above 0.2 it returns false. A facial keypoint other than the nose whose
  visibility is at most 0.2 has no part in the result: putting any other keypoint of
  visibility at most 0.2 in its place, wherever that one lies, leaves the result as it is.
\<close>

theorem in_front_of_face_iff:
  "(17 \<le> length kps \<and> 0.3 \<le> visibility (kps ! 0) \<and> visible_facial_keypoints kps \<noteq> {}
      \<longrightarrow> is_phone_in_front_of_face box kps =
            Inr (in_face_region (get_phone_center box) (visible_facial_keypoints kps) \<and>
                 distance (get_phone_center box) (kx (kps ! 0), ky (kps ! 0)) < NOSE_THRESHOLD \<and>
                 (0.3 < visibility (kps ! 15) \<or> 0.3 < visibility (kps ! 16)))) \<and>
   (visible_facial_keypoints kps = {}
      \<longrightarrow> is_phone_in_front_of_face box kps = Inr False) \<and>
   (17 \<le> length kps \<and> i \<in> {2, 5, 7, 8} \<and> visibility (kps ! i) \<le> 0.2 \<and> visibility q \<le> 0.2
      \<longrightarrow> is_phone_in_front_of_face box (kps[i := q]) = is_phone_in_front_of_face box kps)"
proof (intro conjI impI)
  assume "17 \<le> length kps \<and> 0.3 \<le> visibility (kps ! 0) \<and> visible_facial_keypoints kps \<noteq> {}"
  then have "17 \<le> length kps" and "0.3 \<le> visibility (kps ! 0)"
    by blast+
  then show "is_phone_in_front_of_face box kps =
      Inr (in_face_region (get_phone_center box) (visible_facial_keypoints kps) \<and>
           distance (get_phone_center box) (kx (kps ! 0), ky (kps ! 0)) < NOSE_THRESHOLD \<and>
           (0.3 < visibility (kps ! 15) \<or> 0.3 < visibility (kps ! 16)))"
    unfolding NOSE_THRESHOLD_def by (rule is_phone_in_front_of_face_eq)
next
  assume "visible_facial_keypoints kps = {}"
  then have "kps ! 0 \<notin> visible_facial_keypoints kps"
    by simp
  then have "\<not> 0.2 < visibility (kps ! 0)"
    unfolding visible_facial_keypoints_def by blast
  then have "visibility (kps ! 0) < 0.3"
    by simp
  then show "is_phone_in_front_of_face box kps = Inr False"
    by (rule is_phone_in_front_of_face_hidden_nose)
next
  assume a: "17 \<le> length kps \<and> i \<in> {2, 5, 7, 8} \<and> visibility (kps ! i) \<le> 0.2
    \<and> visibility q \<le> 0.2"
  then have len: "17 \<le> length kps" and i: "i \<in> {2, 5, 7, 8}"
    and hidden: "visibility (kps ! i) \<le> 0.2" "visibility q \<le> 0.2"
    by blast+
  have same: "visible_facial_keypoints (kps[i := q]) = visible_facial_keypoints kps"
    using len i hidden by (rule visible_facial_keypoints_update)
  have "i \<noteq> 0" "i \<noteq> 15" "i \<noteq> 16"
    using i by auto
  then have other: "kps[i := q] ! 0 = kps ! 0" "kps[i := q] ! 15 = kps ! 15"
    "kps[i := q] ! 16 = kps ! 16"
    by simp_all
  have len': "17 \<le> length (kps[i := q])"
    using len by simp
  show "is_phone_in_front_of_face box (kps[i := q]) = is_phone_in_front_of_face box kps"
  proof (cases "0.3 \<le> visibility (kps ! 0)")
    case True
    have "is_phone_in_front_of_face box (kps[i := q]) =
      Inr (in_face_region (get_phone_center box) (visible_facial_keypoints (kps[i := q])) \<and>
           distance (get_phone_center box) (kx (kps[i := q] ! 0), ky (kps[i := q] ! 0)) < 200 \<and>
           (0.3 < visibility (kps[i := q] ! 15) \<or> 0.3 < visibility (kps[i := q] ! 16)))"
      using len' True by (intro is_phone_in_front_of_face_eq) (simp_all only: other)
    also have "\<dots> = is_phone_in_front_of_face box kps"
      unfolding same other
      using len True by (rule is_phone_in_front_of_face_eq [symmetric])
    finally show ?thesis .
  next
    case False
    then have low: "visibility (kps ! 0) < 0.3"
      by simp
    then have "visibility (kps[i := q] ! 0) < 0.3"
      by (simp only: other)
    then have "is_phone_in_front_of_face box (kps[i := q]) = Inr False"
      by (rule is_phone_in_front_of_face_hidden_nose)
    also have "\<dots> = is_phone_in_front_of_face box kps"
      using low by (rule is_phone_in_front_of_face_hidden_nose [symmetric])
    finally show ?thesis .
  qed
qed

text \<open>
  On the example face the region is \<open>10 \<le> x \<le> 390\<close>, \<open>- 35 \<le> y \<le> 220\<close>. A box centred
  at \<open>(390, 100)\<close> lies on its right bound, 190 from the nose; one centred at
  \<open>(360, 220)\<close> lies in the region, 200 from the nose.
\<close>

theorem in_front_of_face_iff_witness:
  "17 \<le> length pose_raised_wrists \<and> 0.3 \<le> visibility (pose_raised_wrists ! 0) \<and>
   visible_facial_keypoints pose_raised_wrists \<noteq> {} \<and>
   is_phone_in_front_of_face (box_centred 200 150) pose_raised_wrists = Inr True \<and>
   is_phone_in_front_of_face (box_centred 390 100) pose_raised_wrists = Inr True \<and>
   is_phone_in_front_of_face (box_centred 391 100) pose_raised_wrists = Inr False \<and>
   is_phone_in_front_of_face (box_centred 360 220) pose_raised_wrists = Inr False \<and>
   17 \<le> length pose_hidden_wrists \<and> 0.3 \<le> visibility (pose_hidden_wrists ! 0) \<and>
   visible_facial_keypoints pose_hidden_wrists \<noteq> {} \<and>
   is_phone_in_front_of_face (box_centred 200 150) pose_hidden_wrists = Inr False \<and>
   visible_facial_keypoints pose_no_face = {} \<and>
   is_phone_in_front_of_face (box_centred 50 50) pose_no_face = Inr False \<and>
   17 \<le> length (pose_raised_wrists[7 := landmark 130 85 0.1]) \<and>
   (7::nat) \<in> {2, 5, 7, 8} \<and>
   visibility (pose_raised_wrists[7 := landmark 130 85 0.1] ! 7) \<le> 0.2 \<and>
   visibility (landmark 9000 9000 0) \<le> 0.2 \<and>
   is_phone_in_front_of_face (box_centred 200 150)
     (pose_raised_wrists[7 := landmark 130 85 0.1, 7 := landmark 9000 9000 0]) =
   is_phone_in_front_of_face (box_centred 200 150)
     (pose_raised_wrists[7 := landmark 130 85 0.1])"
proof -
  have raised: "17 \<le> length pose_raised_wrists" "0.3 \<le> visibility (pose_raised_wrists ! 0)"
    "visible_facial_keypoints pose_raised_wrists \<noteq> {}"
    by (simp_all add: pose_raised_wrists_def visible_facial_keypoints_example)
  have hidden: "17 \<le> length pose_hidden_wrists" "0.3 \<le> visibility (pose_hidden_wrists ! 0)"
    "visible_facial_keypoints pose_hidden_wrists \<noteq> {}"
    by (simp_all add: pose_hidden_wrists_def visible_facial_keypoints_example)
  have sqrt_200: "sqrt 40000 = 200"
    using real_sqrt_abs [of 200] by simp
  have inside: "is_phone_in_front_of_face (box_centred 200 150) pose_raised_wrists = Inr True"
    using in_front_of_face_iff [of pose_raised_wrists "box_centred 200 150"] raised
    by (simp add: pose_raised_wrists_def in_face_region_example distance_def
        NOSE_THRESHOLD_def)
  have on_bound: "is_phone_in_front_of_face (box_centred 390 100) pose_raised_wrists = Inr True"
    using in_front_of_face_iff [of pose_raised_wrists "box_centred 390 100"] raised
    by (simp add: pose_raised_wrists_def in_face_region_example distance_def
        NOSE_THRESHOLD_def)
  have off_bound: "is_phone_in_front_of_face (box_centred 391 100) pose_raised_wrists = Inr False"
    using in_front_of_face_iff [of pose_raised_wrists "box_centred 391 100"] raised
    by (simp add: pose_raised_wrists_def in_face_region_example)
  have at_200: "is_phone_in_front_of_face (box_centred 360 220) pose_raised_wrists = Inr False"
    using in_front_of_face_iff [of pose_raised_wrists "box_centred 360 220"] raised
    by (simp add: pose_raised_wrists_def in_face_region_example distance_def
        NOSE_THRESHOLD_def sqrt_200)
  have no_wrist: "is_phone_in_front_of_face (box_centred 200 150) pose_hidden_wrists = Inr False"
    using in_front_of_face_iff [of pose_hidden_wrists "box_centred 200 150"] hidden
    by (simp add: pose_hidden_wrists_def)
  have no_face: "visible_facial_keypoints pose_no_face = {}"
    by (rule pose_no_face_eval)
  then have no_face_false: "is_phone_in_front_of_face (box_centred 50 50) pose_no_face = Inr False"
    using in_front_of_face_iff [of pose_no_face "box_centred 50 50"] by blast
  have upd: "17 \<le> length (pose_raised_wrists[7 := landmark 130 85 0.1])"
    "(7::nat) \<in> {2, 5, 7, 8}"
    "visibility (pose_raised_wrists[7 := landmark 130 85 0.1] ! 7) \<le> 0.2"
    "visibility (landmark 9000 9000 0) \<le> 0.2"
    by (simp_all add: pose_raised_wrists_def)
  have moved:
    "is_phone_in_front_of_face (box_centred 200 150)
       (pose_raised_wrists[7 := landmark 130 85 0.1, 7 := landmark 9000 9000 0]) =
     is_phone_in_front_of_face (box_centred 200 150)
       (pose_raised_wrists[7 := landmark 130 85 0.1])"
    using in_front_of_face_iff [of "pose_raised_wrists[7 := landmark 130 85 0.1]"
        "box_centred 200 150" 7 "landmark 9000 9000 0"] upd
    by blast
  show ?thesis
    by (intro conjI raised hidden inside on_bound off_bound at_200 no_wrist no_face
        no_face_false upd moved)
qed

subsection \<open>The smoothing window\<close>

lemma trim_eq_drop:
  assumes "length xs \<le> m"
  shows "(let ys = xs @ [v] in if m < length ys then tl ys else ys) =
     drop (Suc (length xs) - m) (xs @ [v])"
proof (cases "length xs = m")
  case True
  then have k: "Suc (length xs) - m = Suc 0" and over: "m < length (xs @ [v])"
    by simp_all
  show ?thesis
    unfolding Let_def by (simp only: k over if_True drop_Suc drop_0)
next
  case False
  with assms have k: "Suc (length xs) - m = 0" and fits: "\<not> m < length (xs @ [v])"
    by simp_all
  show ?thesis
    unfolding Let_def by (simp only: k fits if_False drop_0)
qed

lemma drop_window:
  assumes "length xs \<le> m"
  shows "drop (length (drop (Suc (length xs) - m) (xs @ [e])) + length es - m)
       (drop (Suc (length xs) - m) (xs @ [e]) @ es) =
     drop (length xs + Suc (length es) - m) (xs @ e # es)"
proof -
  define k where "k = Suc (length xs) - m"
  have k_le: "k \<le> length (xs @ [e])"
    unfolding k_def by simp
  have "drop k ((xs @ [e]) @ es) = drop k (xs @ [e]) @ drop (k - length (xs @ [e])) es"
    by (rule drop_append)
  also have "k - length (xs @ [e]) = 0"
    using k_le by simp
  finally have whole: "drop k (xs @ [e]) @ es = drop k (xs @ e # es)"
    by simp
  have len: "length (drop k (xs @ [e])) = Suc (length xs) - k"
    by simp
  have sum: "Suc (length xs) - k + length es - m + k = length xs + Suc (length es) - m"
    using assms unfolding k_def by arith
  have "drop (length (drop k (xs @ [e])) + length es - m) (drop k (xs @ [e]) @ es) =
      drop (Suc (length xs) - k + length es - m) (drop k (xs @ e # es))"
    by (simp only: len whole)
  also have "\<dots> = drop (Suc (length xs) - k + length es - m + k) (xs @ e # es)"
    by (rule drop_drop)
  also have "\<dots> = drop (length xs + Suc (length es) - m) (xs @ e # es)"
    by (simp only: sum)
  finally show ?thesis
    unfolding k_def .
qed

lemma add_detection_items:
  "items (phone_detections (add_detection s a b c d t)) =
     (let xs = items (phone_detections s) @ [entry (a, b, c, d, t)]
      in if maxlen (phone_detections s) < length xs then tl xs else xs)"
  by (simp add: add_detection_def deque_append_def entry_def Let_def)

lemma add_detection_fields [simp]:
  "window_size (add_detection s a b c d t) = window_size s"
  "maxlen (phone_detections (add_detection s a b c d t)) = maxlen (phone_detections s)"
  by (simp_all add: add_detection_def deque_append_def Let_def)

lemma add_detections_fields [simp]:
  "window_size (add_detections s ps) = window_size s"
  "maxlen (phone_detections (add_detections s ps)) = maxlen (phone_detections s)"
  by (induction s ps rule: add_detections.induct) simp_all

lemma add_detection_drop:
  assumes "length (items (phone_detections s)) \<le> maxlen (phone_detections s)"
  shows "items (phone_detections (add_detection s a b c d t)) =
     drop (Suc (length (items (phone_detections s))) - maxlen (phone_detections s))
       (items (phone_detections s) @ [entry (a, b, c, d, t)])"
  using trim_eq_drop [OF assms] by (simp only: add_detection_items)

lemma add_detections_drop:
  "length (items (phone_detections s)) \<le> maxlen (phone_detections s) \<Longrightarrow>
     items (phone_detections (add_detections s ps)) =
       drop (length (items (phone_detections s)) + length ps - maxlen (phone_detections s))
         (items (phone_detections s) @ map entry ps)"
proof (induction s ps rule: add_detections.induct)
  case (1 self)
  then show ?case by simp
next
  case (2 self a b c d t rest)
  let ?xs = "items (phone_detections self)"
  let ?m = "maxlen (phone_detections self)"
  let ?e = "entry (a, b, c, d, t)"
  let ?s = "add_detection self a b c d t"
  have step: "items (phone_detections ?s) = drop (Suc (length ?xs) - ?m) (?xs @ [?e])"
    using "2.prems" by (rule add_detection_drop)
  then have "length (items (phone_detections ?s)) = Suc (length ?xs) - (Suc (length ?xs) - ?m)"
    by simp
  then have inv: "length (items (phone_detections ?s)) \<le> maxlen (phone_detections ?s)"
    by simp
  have "items (phone_detections (add_detections ?s rest)) =
      drop (length (items (phone_detections ?s)) + length rest - maxlen (phone_detections ?s))
        (items (phone_detections ?s) @ map entry rest)"
    using inv by (rule "2.IH")
  also have "\<dots> = drop (length (drop (Suc (length ?xs) - ?m) (?xs @ [?e]))
        + length (map entry rest) - ?m)
      (drop (Suc (length ?xs) - ?m) (?xs @ [?e]) @ map entry rest)"
    by (simp add: step)
  also have "\<dots> = drop (length ?xs + Suc (length (map entry rest)) - ?m)
      (?xs @ ?e # map entry rest)"
    using "2.prems" by (rule drop_window)
  finally show ?case by simp
qed

lemma votes_eq_length: "(\<Sum>d \<leftarrow> filter P xs. (1::int)) = int (length (filter P xs))"
  by (induction xs) simp_all

lemma get_smoothed_result_nonempty:
  assumes "items (phone_detections s) \<noteq> []"
  shows "get_smoothed_result s =
     \<lparr>smoothed_phone_detected =
        real_of_int (window_size s) / 2 < real (length (filter phone (items (phone_detections s)))),
      smoothed_phone_near_left_ear =
        real_of_int (window_size s) / 2 < real (length (filter left_ear (items (phone_detections s)))),
      smoothed_phone_near_right_ear =
        real_of_int (window_size s) / 2 < real (length (filter right_ear (items (phone_detections s)))),
      smoothed_phone_in_front_of_face =
        real_of_int (window_size s) / 2 < real (length (filter front_face (items (phone_detections s))))\<rparr>"
  using assms by (simp add: get_smoothed_result_def votes_eq_length Let_def)

lemma get_smoothed_result_empty:
  "items (phone_detections s) = [] \<Longrightarrow> get_smoothed_result s = all_false"
  by (simp add: get_smoothed_result_def all_false_def)

lemma phone_entry [simp]: "phone (entry p) = fst p"
  by (cases p) (simp add: entry_def)

lemma initial_smoother_fields [simp]:
  "window_size initial_smoother = 5"
  "maxlen (phone_detections initial_smoother) = 5"
  "items (phone_detections initial_smoother) = []"
  by (simp_all add: initial_smoother_def)

lemma DetectionSmoothing_init_5: "DetectionSmoothing_init 5 = Inr initial_smoother"
  by (simp add: DetectionSmoothing_init_def deque_new_def initial_smoother_def)

text \<open>
  C7. The window is a queue of capacity 5: a push on fewer than 5 tuples appends, a push on
  5 tuples drops the oldest one and appends. After 5 pushes with phone true and one with
  phone false, on whatever the window held before, the window is the last 5 of these 6
  tuples in their order, 4 of them with phone true, and the smoothed phone flag is true.
\<close>

theorem window_keeps_last_five:
  "(maxlen (phone_detections s) = 5 \<and> length (items (phone_detections s)) < 5
      \<longrightarrow> items (phone_detections (add_detection s a b c d t)) =
            items (phone_detections s) @ [entry (a, b, c, d, t)]) \<and>
   (maxlen (phone_detections s) = 5 \<and> length (items (phone_detections s)) = 5
      \<longrightarrow> items (phone_detections (add_detection s a b c d t)) =
            tl (items (phone_detections s)) @ [entry (a, b, c, d, t)]) \<and>
   (window_size s = 5 \<and> maxlen (phone_detections s) = 5 \<and>
    length (items (phone_detections s)) \<le> 5 \<and>
    length ps = 5 \<and> (\<forall>p \<in> set ps. fst p) \<and> \<not> fst q
      \<longrightarrow> items (phone_detections (add_detections s (ps @ [q]))) = map entry (tl ps @ [q]) \<and>
          length (filter phone (items (phone_detections (add_detections s (ps @ [q]))))) = 4 \<and>
          smoothed_phone_detected (get_smoothed_result (add_detections s (ps @ [q]))))"
proof -
  have appends: "maxlen (phone_detections s) = 5 \<and> length (items (phone_detections s)) < 5
      \<longrightarrow> items (phone_detections (add_detection s a b c d t)) =
            items (phone_detections s) @ [entry (a, b, c, d, t)]"
    by (simp add: add_detection_items)
  have evicts: "maxlen (phone_detections s) = 5 \<and> length (items (phone_detections s)) = 5
      \<longrightarrow> items (phone_detections (add_detection s a b c d t)) =
            tl (items (phone_detections s)) @ [entry (a, b, c, d, t)]"
  proof
    assume full: "maxlen (phone_detections s) = 5 \<and> length (items (phone_detections s)) = 5"
    then have "items (phone_detections s) \<noteq> []"
      by auto
    with full show "items (phone_detections (add_detection s a b c d t)) =
        tl (items (phone_detections s)) @ [entry (a, b, c, d, t)]"
      by (simp add: add_detection_items)
  qed
  have scenario: "window_size s = 5 \<and> maxlen (phone_detections s) = 5 \<and>
    length (items (phone_detections s)) \<le> 5 \<and>
    length ps = 5 \<and> (\<forall>p \<in> set ps. fst p) \<and> \<not> fst q
      \<longrightarrow> items (phone_detections (add_detections s (ps @ [q]))) = map entry (tl ps @ [q]) \<and>
          length (filter phone (items (phone_detections (add_detections s (ps @ [q]))))) = 4 \<and>
          smoothed_phone_detected (get_smoothed_result (add_detections s (ps @ [q])))"
  proof
    assume a: "window_size s = 5 \<and> maxlen (phone_detections s) = 5 \<and>
      length (items (phone_detections s)) \<le> 5 \<and>
      length ps = 5 \<and> (\<forall>p \<in> set ps. fst p) \<and> \<not> fst q"
    let ?xs = "items (phone_detections s)"
    let ?s' = "add_detections s (ps @ [q])"
    from a have ws: "window_size s = 5" and m: "maxlen (phone_detections s) = 5"
      and inv: "length ?xs \<le> maxlen (phone_detections s)" and len: "length ps = 5"
      and true: "\<forall>p \<in> set ps. fst p" and false: "\<not> fst q"
      by simp_all
    from len obtain p ps' where ps: "ps = p # ps'" and len': "length ps' = 4"
      by (cases ps) simp_all
    have "items (phone_detections ?s') =
        drop (length ?xs + length (ps @ [q]) - maxlen (phone_detections s))
          (?xs @ map entry (ps @ [q]))"
      using inv by (rule add_detections_drop)
    also have "length ?xs + length (ps @ [q]) - maxlen (phone_detections s) = Suc (length ?xs)"
      using m len by simp
    also have "drop (Suc (length ?xs)) (?xs @ map entry (ps @ [q])) = map entry (tl ps @ [q])"
      by (simp add: ps)
    finally have window: "items (phone_detections ?s') = map entry (tl ps @ [q])" .
    have "filter phone (map entry (tl ps @ [q])) = map entry ps'"
      using true false by (simp add: ps filter_map o_def)
    then have votes: "length (filter phone (items (phone_detections ?s'))) = 4"
      using len' by (simp only: window length_map)
    have "items (phone_detections ?s') \<noteq> []"
      by (simp add: window)
    then have "smoothed_phone_detected (get_smoothed_result ?s')"
      using get_smoothed_result_nonempty [of ?s'] by (simp add: votes ws)
    with window votes
    show "items (phone_detections ?s') = map entry (tl ps @ [q]) \<and>
        length (filter phone (items (phone_detections ?s'))) = 4 \<and>
        smoothed_phone_detected (get_smoothed_result ?s')"
      by (intro conjI)
  qed
  show ?thesis
    by (intro conjI appends evicts scenario)
qed

theorem window_keeps_last_five_witness:
  "window_size initial_smoother = 5 \<and>
   maxlen (phone_detections initial_smoother) = 5 \<and>
   length (items (phone_detections initial_smoother)) \<le> 5 \<and>
   length (replicate 5 (True, False, False, True, 0 :: real)) = 5 \<and>
   list_all fst (replicate 5 (True, False, False, True, 0 :: real)) \<and>
   \<not> fst (False, False, False, False, 1 :: real) \<and>
   items (phone_detections
     (add_detections initial_smoother
        (replicate 5 (True, False, False, True, 0) @ [(False, False, False, False, 1)]))) =
     replicate 4 (entry (True, False, False, True, 0)) @ [entry (False, False, False, False, 1)] \<and>
   smoothed_phone_detected (get_smoothed_result
     (add_detections initial_smoother
        (replicate 5 (True, False, False, True, 0) @ [(False, False, False, False, 1)]))) \<and>
   length (items (phone_detections initial_smoother)) < 5 \<and>
   items (phone_detections (add_detection initial_smoother True False False True 0)) =
     [entry (True, False, False, True, 0)] \<and>
   maxlen (phone_detections
     (add_detections initial_smoother (replicate 5 (True, False, False, True, 0)))) = 5 \<and>
   length (items (phone_detections
     (add_detections initial_smoother (replicate 5 (True, False, False, True, 0))))) = 5 \<and>
   items (phone_detections
     (add_detection
        (add_detections initial_smoother (replicate 5 (True, False, False, True, 0)))
        False False False False 1)) =
     replicate 4 (entry (True, False, False, True, 0)) @ [entry (False, False, False, False, 1)]"
proof -
  let ?ps = "replicate 5 (True, False, False, True, 0 :: real)"
  let ?q = "(False, False, False, False, 1 :: real)"
  let ?s5 = "add_detections initial_smoother ?ps"
  have hyp: "window_size initial_smoother = 5 \<and>
    maxlen (phone_detections initial_smoother) = 5 \<and>
    length (items (phone_detections initial_smoother)) \<le> 5 \<and>
    length ?ps = 5 \<and> (\<forall>p \<in> set ?ps. fst p) \<and> \<not> fst ?q"
    by simp
  have tail: "map entry (tl ?ps @ [?q]) =
      replicate 4 (entry (True, False, False, True, 0)) @ [entry ?q]"
    by (simp add: numeral_eq_Suc)
  have scenario:
    "items (phone_detections (add_detections initial_smoother (?ps @ [?q]))) =
       replicate 4 (entry (True, False, False, True, 0)) @ [entry ?q]"
    "smoothed_phone_detected (get_smoothed_result (add_detections initial_smoother (?ps @ [?q])))"
    using window_keeps_last_five [of initial_smoother _ _ _ _ _ ?ps ?q] hyp tail
    by simp_all
  have room: "length (items (phone_detections initial_smoother)) < 5"
    by simp
  then have first: "items (phone_detections (add_detection initial_smoother True False False True 0)) =
      [entry (True, False, False, True, 0)]"
    using window_keeps_last_five [of initial_smoother True False False True 0] by simp
  have "items (phone_detections ?s5) = map entry ?ps"
    using add_detections_drop [of initial_smoother ?ps] by simp
  then have five: "items (phone_detections ?s5) = replicate 5 (entry (True, False, False, True, 0))"
    by simp
  then have full: "maxlen (phone_detections ?s5) = 5" "length (items (phone_detections ?s5)) = 5"
    by simp_all
  then have "items (phone_detections (add_detection ?s5 False False False False 1)) =
      tl (items (phone_detections ?s5)) @ [entry ?q]"
    using window_keeps_last_five [of ?s5 False False False False 1] by blast
  moreover have "tl (replicate 5 (entry (True, False, False, True, 0))) =
      replicate 4 (entry (True, False, False, True, 0))"
    by (simp add: numeral_eq_Suc)
  ultimately have sixth: "items (phone_detections (add_detection ?s5 False False False False 1)) =
      replicate 4 (entry (True, False, False, True, 0)) @ [entry ?q]"
    by (simp only: five)
  from hyp have hyps: "window_size initial_smoother = 5"
    "maxlen (phone_detections initial_smoother) = 5"
    "length (items (phone_detections initial_smoother)) \<le> 5"
    "length ?ps = 5" "list_all fst ?ps" "\<not> fst ?q"
    by (simp_all add: list_all_iff)
  show ?thesis
    by (intro conjI hyps scenario room first full sixth)
qed

subsection \<open>The proximity loop\<close>

lemma is_phone_near_left_ear_total: "\<exists>b. is_phone_near_left_ear box kps = Inr b"
  by (simp add: is_phone_near_left_ear_eq)

lemma is_phone_near_right_ear_total: "\<exists>b. is_phone_near_right_ear box kps = Inr b"
  by (simp add: is_phone_near_right_ear_eq)

lemma check_phone_left:
  "L box kps = Inr True \<Longrightarrow> check_phone L R F kps (l, r, f) box = Inr (True, r, f)"
  by (simp add: check_phone_def)

lemma check_phone_right:
  "L box kps = Inr False \<Longrightarrow> R box kps = Inr True \<Longrightarrow>
     check_phone L R F kps (l, r, f) box = Inr (l, True, f)"
  by (simp add: check_phone_def)

lemma check_phone_front:
  "L box kps = Inr False \<Longrightarrow> R box kps = Inr False \<Longrightarrow> F box kps = Inr True \<Longrightarrow>
     check_phone L R F kps (l, r, f) box = Inr (l, r, True)"
  by (simp add: check_phone_def)

lemma check_phone_none:
  "L box kps = Inr False \<Longrightarrow> R box kps = Inr False \<Longrightarrow> F box kps = Inr False \<Longrightarrow>
     check_phone L R F kps (l, r, f) box = Inr (l, r, f)"
  by (simp add: check_phone_def)

lemma check_phone_total:
  assumes "L box kps = Inr bl" and "R box kps = Inr br" and "F box kps = Inr bf"
  shows "check_phone L R F kps (l, r, f) box =
     Inr (l \<or> bl, r \<or> (\<not> bl \<and> br), f \<or> (\<not> bl \<and> \<not> br \<and> bf))"
  using assms by (cases bl; cases br; cases bf) (simp_all add: check_phone_def)

lemma check_phones_append:
  "check_phones L R F (bs1 @ bs2) kps fl =
     and_then (check_phones L R F bs1 kps fl) (check_phones L R F bs2 kps)"
proof (induction bs1 arbitrary: fl)
  case Nil
  show ?case by simp
next
  case (Cons b bs1)
  show ?case
  proof (cases "check_phone L R F kps fl b")
    case (Inl e)
    then show ?thesis by simp
  next
    case (Inr fl')
    then show ?thesis
      using Cons.IH [of fl'] by simp
  qed
qed

lemma check_phones_flags:
  "check_phones is_phone_near_left_ear is_phone_near_right_ear is_phone_in_front_of_face
     boxes kps (l, r, f) =
   Inr (l \<or> (\<exists>b \<in> set boxes. is_phone_near_left_ear b kps = Inr True),
        r \<or> (\<exists>b \<in> set boxes. is_phone_near_left_ear b kps = Inr False \<and>
                               is_phone_near_right_ear b kps = Inr True),
        f \<or> (\<exists>b \<in> set boxes. is_phone_near_left_ear b kps = Inr False \<and>
                               is_phone_near_right_ear b kps = Inr False \<and>
                               is_phone_in_front_of_face b kps = Inr True))"
proof (induction boxes arbitrary: l r f)
  case Nil
  show ?case by simp
next
  case (Cons box boxes)
  obtain bl br bf where
    b: "is_phone_near_left_ear box kps = Inr bl" "is_phone_near_right_ear box kps = Inr br"
      "is_phone_in_front_of_face box kps = Inr bf"
    using is_phone_near_left_ear_total is_phone_near_right_ear_total
      is_phone_in_front_of_face_total by blast
  have step: "check_phone is_phone_near_left_ear is_phone_near_right_ear
      is_phone_in_front_of_face kps (l, r, f) box =
      Inr (l \<or> bl, r \<or> (\<not> bl \<and> br), f \<or> (\<not> bl \<and> \<not> br \<and> bf))"
    using b by (rule check_phone_total)
  show ?case
    by (simp only: check_phones.simps step and_then_Inr Cons.IH) (auto simp add: b)
qed

text \<open>
  Four boxes on the example pose with raised wrists: one on the left ear, one on the right
  ear, one below the nose and away from both ears, and one far from the face.
\<close>

lemma sqrt_less_numeral: "0 \<le> y \<Longrightarrow> x < y\<^sup>2 \<Longrightarrow> sqrt x < y"
  by (rule real_less_lsqrt)

lemma sqrt_not_less_numeral: "0 \<le> y \<Longrightarrow> y\<^sup>2 \<le> x \<Longrightarrow> \<not> sqrt x < y"
  using real_le_rsqrt [of y x] by simp

lemma example_on_left_ear:
  "is_phone_near_left_ear (box_centred 130 85) pose_raised_wrists = Inr True"
  by (simp add: is_phone_near_left_ear_eq pose_raised_wrists_def distance_def)

lemma example_on_right_ear:
  "is_phone_near_left_ear (box_centred 270 85) pose_raised_wrists = Inr False"
  "is_phone_near_right_ear (box_centred 270 85) pose_raised_wrists = Inr True"
  by (simp_all add: is_phone_near_left_ear_eq is_phone_near_right_ear_eq
      pose_raised_wrists_def distance_def)

lemma example_below_nose:
  "is_phone_near_left_ear (box_centred 200 210) pose_raised_wrists = Inr False"
  "is_phone_near_right_ear (box_centred 200 210) pose_raised_wrists = Inr False"
  "is_phone_in_front_of_face (box_centred 200 210) pose_raised_wrists = Inr True"
proof -
  have far: "\<not> sqrt 20525 < 100" "\<not> sqrt 20525 < 140"
    by (simp_all add: sqrt_not_less_numeral)
  show "is_phone_near_left_ear (box_centred 200 210) pose_raised_wrists = Inr False"
    by (simp add: is_phone_near_left_ear_eq pose_raised_wrists_def distance_def far)
  show "is_phone_near_right_ear (box_centred 200 210) pose_raised_wrists = Inr False"
    by (simp add: is_phone_near_right_ear_eq pose_raised_wrists_def distance_def far)
  have "17 \<le> length pose_raised_wrists" "0.3 \<le> visibility (pose_raised_wrists ! 0)"
    by (simp_all add: pose_raised_wrists_def)
  then show "is_phone_in_front_of_face (box_centred 200 210) pose_raised_wrists = Inr True"
    by (simp add: is_phone_in_front_of_face_eq)
       (simp add: pose_raised_wrists_def in_face_region_example distance_def)
qed

lemma example_far_away:
  "is_phone_near_left_ear (box_centred 1000 1000) pose_raised_wrists = Inr False"
  "is_phone_near_right_ear (box_centred 1000 1000) pose_raised_wrists = Inr False"
  "is_phone_in_front_of_face (box_centred 1000 1000) pose_raised_wrists = Inr False"
proof -
  have far: "\<not> sqrt 1594125 < 100" "\<not> sqrt 1594125 < 140"
    "\<not> sqrt 1370125 < 100" "\<not> sqrt 1370125 < 140"
    by (simp_all add: sqrt_not_less_numeral)
  show "is_phone_near_left_ear (box_centred 1000 1000) pose_raised_wrists = Inr False"
    by (simp add: is_phone_near_left_ear_eq pose_raised_wrists_def distance_def far)
  show "is_phone_near_right_ear (box_centred 1000 1000) pose_raised_wrists = Inr False"
    by (simp add: is_phone_near_right_ear_eq pose_raised_wrists_def distance_def far)
  have "17 \<le> length pose_raised_wrists" "0.3 \<le> visibility (pose_raised_wrists ! 0)"
    by (simp_all add: pose_raised_wrists_def)
  then show "is_phone_in_front_of_face (box_centred 1000 1000) pose_raised_wrists = Inr False"
    by (simp add: is_phone_in_front_of_face_eq)
       (simp add: pose_raised_wrists_def in_face_region_example)
qed

text \<open>
  C2. For one phone box the chain asks the left-ear classifier first; if that returns
  true the left flag is set and the result is the same whatever the other two classifiers
  are, also when they would raise: they are not called. Otherwise it asks the right-ear
  classifier, in the same way, and only then the front-of-face classifier. The boxes are
  handled in list order, each starting from the flags the boxes before it have left. So
  with the three classifiers of the endpoint each flag of a frame is the disjunction over
  the boxes: left if some box is near the left ear, right if some box is not near the left
  ear but near the right one, front if some box is near neither ear but in front of the
  face; and one box alone sets at most one of the three flags.
\<close>

theorem proximity_priority:
  "(L box kps = Inr True
      \<longrightarrow> check_phone L R F kps (l, r, f) box = Inr (True, r, f)) \<and>
   (L box kps = Inr False \<and> R box kps = Inr True
      \<longrightarrow> check_phone L R F kps (l, r, f) box = Inr (l, True, f)) \<and>
   (L box kps = Inr False \<and> R box kps = Inr False \<and> F box kps = Inr True
      \<longrightarrow> check_phone L R F kps (l, r, f) box = Inr (l, r, True)) \<and>
   (L box kps = Inr False \<and> R box kps = Inr False \<and> F box kps = Inr False
      \<longrightarrow> check_phone L R F kps (l, r, f) box = Inr (l, r, f)) \<and>
   check_phones L R F (boxes @ boxes') kps (l, r, f) =
     and_then (check_phones L R F boxes kps (l, r, f)) (check_phones L R F boxes' kps) \<and>
   check_phones is_phone_near_left_ear is_phone_near_right_ear is_phone_in_front_of_face
     boxes kps (l, r, f) =
     Inr (l \<or> (\<exists>b \<in> set boxes. is_phone_near_left_ear b kps = Inr True),
          r \<or> (\<exists>b \<in> set boxes. is_phone_near_left_ear b kps = Inr False \<and>
                                 is_phone_near_right_ear b kps = Inr True),
          f \<or> (\<exists>b \<in> set boxes. is_phone_near_left_ear b kps = Inr False \<and>
                                 is_phone_near_right_ear b kps = Inr False \<and>
                                 is_phone_in_front_of_face b kps = Inr True)) \<and>
   (\<exists>l' r' f'.
      check_phones is_phone_near_left_ear is_phone_near_right_ear is_phone_in_front_of_face
        [box] kps (False, False, False) = Inr (l', r', f') \<and>
      \<not> (l' \<and> r') \<and> \<not> (l' \<and> f') \<and> \<not> (r' \<and> f'))"
proof -
  have one: "L box kps = Inr True
      \<longrightarrow> check_phone L R F kps (l, r, f) box = Inr (True, r, f)"
    by (simp add: check_phone_left)
  have two: "L box kps = Inr False \<and> R box kps = Inr True
      \<longrightarrow> check_phone L R F kps (l, r, f) box = Inr (l, True, f)"
    by (simp add: check_phone_right)
  have three: "L box kps = Inr False \<and> R box kps = Inr False \<and> F box kps = Inr True
      \<longrightarrow> check_phone L R F kps (l, r, f) box = Inr (l, r, True)"
    by (simp add: check_phone_front)
  have none: "L box kps = Inr False \<and> R box kps = Inr False \<and> F box kps = Inr False
      \<longrightarrow> check_phone L R F kps (l, r, f) box = Inr (l, r, f)"
    by (simp add: check_phone_none)
  have order: "check_phones L R F (boxes @ boxes') kps (l, r, f) =
      and_then (check_phones L R F boxes kps (l, r, f)) (check_phones L R F boxes' kps)"
    by (rule check_phones_append)
  have combined:
    "check_phones is_phone_near_left_ear is_phone_near_right_ear is_phone_in_front_of_face
       boxes kps (l, r, f) =
     Inr (l \<or> (\<exists>b \<in> set boxes. is_phone_near_left_ear b kps = Inr True),
          r \<or> (\<exists>b \<in> set boxes. is_phone_near_left_ear b kps = Inr False \<and>
                                 is_phone_near_right_ear b kps = Inr True),
          f \<or> (\<exists>b \<in> set boxes. is_phone_near_left_ear b kps = Inr False \<and>
                                 is_phone_near_right_ear b kps = Inr False \<and>
                                 is_phone_in_front_of_face b kps = Inr True))"
    by (rule check_phones_flags)
  have single: "\<exists>l' r' f'.
      check_phones is_phone_near_left_ear is_phone_near_right_ear is_phone_in_front_of_face
        [box] kps (False, False, False) = Inr (l', r', f') \<and>
      \<not> (l' \<and> r') \<and> \<not> (l' \<and> f') \<and> \<not> (r' \<and> f')"
    using check_phones_flags [of "[box]" kps False False False] by auto
  show ?thesis
    by (intro conjI one two three none order combined single)
qed

theorem proximity_priority_witness:
  "is_phone_near_left_ear (box_centred 130 85) pose_raised_wrists = Inr True \<and>
   check_phone is_phone_near_left_ear raising raising pose_raised_wrists
     (False, False, False) (box_centred 130 85) = Inr (True, False, False) \<and>
   is_phone_near_left_ear (box_centred 270 85) pose_raised_wrists = Inr False \<and>
   is_phone_near_right_ear (box_centred 270 85) pose_raised_wrists = Inr True \<and>
   check_phone is_phone_near_left_ear is_phone_near_right_ear raising pose_raised_wrists
     (False, False, False) (box_centred 270 85) = Inr (False, True, False) \<and>
   is_phone_near_left_ear (box_centred 200 210) pose_raised_wrists = Inr False \<and>
   is_phone_near_right_ear (box_centred 200 210) pose_raised_wrists = Inr False \<and>
   is_phone_in_front_of_face (box_centred 200 210) pose_raised_wrists = Inr True \<and>
   check_phone is_phone_near_left_ear is_phone_near_right_ear is_phone_in_front_of_face
     pose_raised_wrists (False, False, False) (box_centred 200 210) = Inr (False, False, True) \<and>
   is_phone_near_left_ear (box_centred 1000 1000) pose_raised_wrists = Inr False \<and>
   is_phone_near_right_ear (box_centred 1000 1000) pose_raised_wrists = Inr False \<and>
   is_phone_in_front_of_face (box_centred 1000 1000) pose_raised_wrists = Inr False \<and>
   check_phone is_phone_near_left_ear is_phone_near_right_ear is_phone_in_front_of_face
     pose_raised_wrists (False, False, False) (box_centred 1000 1000) =
     Inr (False, False, False) \<and>
   check_phones is_phone_near_left_ear is_phone_near_right_ear is_phone_in_front_of_face
     [box_centred 1000 1000, box_centred 270 85, box_centred 130 85] pose_raised_wrists
     (False, False, False) = Inr (True, True, False)"
proof -
  note left = example_on_left_ear
  note right = example_on_right_ear
  note front = example_below_nose
  note far = example_far_away
  have on_left: "check_phone is_phone_near_left_ear raising raising pose_raised_wrists
      (False, False, False) (box_centred 130 85) = Inr (True, False, False)"
    using proximity_priority [of is_phone_near_left_ear "box_centred 130 85"
        pose_raised_wrists raising raising False False False] left
    by blast
  have on_right: "check_phone is_phone_near_left_ear is_phone_near_right_ear raising
      pose_raised_wrists (False, False, False) (box_centred 270 85) = Inr (False, True, False)"
    using proximity_priority [of is_phone_near_left_ear "box_centred 270 85"
        pose_raised_wrists is_phone_near_right_ear raising False False False] right
    by blast
  have in_front: "check_phone is_phone_near_left_ear is_phone_near_right_ear
      is_phone_in_front_of_face pose_raised_wrists (False, False, False)
      (box_centred 200 210) = Inr (False, False, True)"
    using proximity_priority [of is_phone_near_left_ear "box_centred 200 210"
        pose_raised_wrists is_phone_near_right_ear is_phone_in_front_of_face
        False False False] front
    by blast
  have nowhere: "check_phone is_phone_near_left_ear is_phone_near_right_ear
      is_phone_in_front_of_face pose_raised_wrists (False, False, False)
      (box_centred 1000 1000) = Inr (False, False, False)"
    using proximity_priority [of is_phone_near_left_ear "box_centred 1000 1000"
        pose_raised_wrists is_phone_near_right_ear is_phone_in_front_of_face
        False False False] far
    by blast
  have "check_phones is_phone_near_left_ear is_phone_near_right_ear is_phone_in_front_of_face
      [box_centred 1000 1000, box_centred 270 85, box_centred 130 85] pose_raised_wrists
      (False, False, False) =
      Inr (False \<or> (\<exists>b \<in> set [box_centred 1000 1000, box_centred 270 85, box_centred 130 85].
                    is_phone_near_left_ear b pose_raised_wrists = Inr True),
           False \<or> (\<exists>b \<in> set [box_centred 1000 1000, box_centred 270 85, box_centred 130 85].
                    is_phone_near_left_ear b pose_raised_wrists = Inr False \<and>
                    is_phone_near_right_ear b pose_raised_wrists = Inr True),
           False \<or> (\<exists>b \<in> set [box_centred 1000 1000, box_centred 270 85, box_centred 130 85].
                    is_phone_near_left_ear b pose_raised_wrists = Inr False \<and>
                    is_phone_near_right_ear b pose_raised_wrists = Inr False \<and>
                    is_phone_in_front_of_face b pose_raised_wrists = Inr True))"
    using proximity_priority [where l = False and r = False and f = False
        and boxes = "[box_centred 1000 1000, box_centred 270 85, box_centred 130 85]"
        and kps = pose_raised_wrists]
    by blast
  then have both: "check_phones is_phone_near_left_ear is_phone_near_right_ear
      is_phone_in_front_of_face
      [box_centred 1000 1000, box_centred 270 85, box_centred 130 85] pose_raised_wrists
      (False, False, False) = Inr (True, True, False)"
    by (simp add: left right far)
  show ?thesis
    by (intro conjI left right front far on_left on_right in_front nowhere both)
qed

subsection \<open>The detect endpoint\<close>

lemma frame_flags:
  "(if 0 < length boxes \<and> pose \<noteq> None then
      check_phones is_phone_near_left_ear is_phone_near_right_ear is_phone_in_front_of_face
        boxes (case pose of Some r \<Rightarrow> pose_keypoints r | None \<Rightarrow> []) (False, False, False)
    else Inr (False, False, False)) =
   Inr (phone_near_left_ear (frame_of boxes pose),
        phone_near_right_ear (frame_of boxes pose),
        phone_in_front_of_face (frame_of boxes pose))"
  by (simp add: check_phones_flags frame_of_def Let_def)

lemma face_flag:
  "(if kps \<noteq> [] then and_then (get_item kps 0) (\<lambda>nose. Inr (0.2 < visibility nose))
    else Inr False) = Inr (kps \<noteq> [] \<and> 0.2 < visibility (kps ! 0))"
  by (simp add: get_item_def)

lemma detect_frame_eq:
  "detect_frame env =
     and_then (file_read env) (\<lambda>buf.
     and_then (cv2_imdecode env buf) (\<lambda>decoded.
       case decoded of
         None \<Rightarrow> Inl (HTTPException 400 ''Invalid image format'')
       | Some img \<Rightarrow>
           and_then (cv2_cvtColor env img) (\<lambda>rgb.
           and_then (detect_objects env rgb) (\<lambda>boxes.
           and_then (detect_pose env rgb) (\<lambda>pose. Inr (frame_of boxes pose))))))"
  unfolding detect_frame_def Let_def
  by (simp only: face_flag frame_flags and_then_Inr fst_conv snd_conv)
     (simp add: frame_of_def Let_def cong: option.case_cong)

lemma detect_frame_Inr_D:
  assumes "detect_frame env = Inr fr"
  shows "\<exists>buf img rgb boxes pose.
     file_read env = Inr buf \<and> cv2_imdecode env buf = Inr (Some img) \<and>
     cv2_cvtColor env img = Inr rgb \<and> detect_objects env rgb = Inr boxes \<and>
     detect_pose env rgb = Inr pose \<and> fr = frame_of boxes pose"
  using assms unfolding detect_frame_eq and_then_def
  by (auto split: sum.splits option.splits)

lemma detect_frame_returns:
  assumes "file_read env = Inr buf" and "cv2_imdecode env buf = Inr (Some img)"
    and "cv2_cvtColor env img = Inr rgb" and "detect_objects env rgb = Inr boxes"
    and "detect_pose env rgb = Inr pose"
  shows "detect_frame env = Inr (frame_of boxes pose)"
  using assms by (simp add: detect_frame_eq)

lemma detect_frame_raises:
  "file_read env = Inl e \<Longrightarrow> detect_frame env = Inl e"
  "file_read env = Inr buf \<Longrightarrow> cv2_imdecode env buf = Inl e \<Longrightarrow> detect_frame env = Inl e"
  "file_read env = Inr buf \<Longrightarrow> cv2_imdecode env buf = Inr None \<Longrightarrow>
     detect_frame env = Inl (HTTPException 400 ''Invalid image format'')"
  "file_read env = Inr buf \<Longrightarrow> cv2_imdecode env buf = Inr (Some img) \<Longrightarrow>
     cv2_cvtColor env img = Inl e \<Longrightarrow> detect_frame env = Inl e"
  "file_read env = Inr buf \<Longrightarrow> cv2_imdecode env buf = Inr (Some img) \<Longrightarrow>
     cv2_cvtColor env img = Inr rgb \<Longrightarrow> detect_objects env rgb = Inl e \<Longrightarrow>
     detect_frame env = Inl e"
  "file_read env = Inr buf \<Longrightarrow> cv2_imdecode env buf = Inr (Some img) \<Longrightarrow>
     cv2_cvtColor env img = Inr rgb \<Longrightarrow> detect_objects env rgb = Inr boxes \<Longrightarrow>
     detect_pose env rgb = Inl e \<Longrightarrow> detect_frame env = Inl e"
  by (simp_all add: detect_frame_eq)

lemma detect_raises:
  "detect_frame env = Inl e \<Longrightarrow>
     detect env s = (Inl (HTTPException 500 (''Detection failed: '' @ exception_str env e)), s)"
  by (simp add: detect_def)

lemma detect_returns:
  "detect_frame env = Inr fr \<Longrightarrow>
     detect env s = detect_respond env s fr"
  by (simp add: detect_def detect_respond_def Let_def)

lemma detect_respond_state:
  "snd (detect_respond env s fr) =
     add_detection s
       (phone_detected fr \<and>
          (phone_near_left_ear fr \<or> phone_near_right_ear fr \<or> phone_in_front_of_face fr))
       (phone_near_left_ear fr) (phone_near_right_ear fr) (phone_in_front_of_face fr)
       (time_time env)"
  by (simp add: detect_respond_def Let_def)

lemma detect_respond_response:
  "\<exists>res. fst (detect_respond env s fr) = Inr res \<and>
     res_phone_detected res =
       smoothed_phone_detected (get_smoothed_result (snd (detect_respond env s fr))) \<and>
     res_phone_near_left_ear res =
       smoothed_phone_near_left_ear (get_smoothed_result (snd (detect_respond env s fr))) \<and>
     res_phone_near_right_ear res =
       smoothed_phone_near_right_ear (get_smoothed_result (snd (detect_respond env s fr))) \<and>
     res_phone_in_front_of_face res =
       smoothed_phone_in_front_of_face (get_smoothed_result (snd (detect_respond env s fr)))"
  by (simp add: detect_respond_def Let_def)

lemma detect_error_unchanged:
  assumes "fst (detect env s) = Inl e"
  shows "snd (detect env s) = s"
proof (cases "detect_frame env")
  case (Inl e')
  then show ?thesis
    by (simp add: detect_raises)
next
  case (Inr fr)
  then have "fst (detect env s) = fst (detect_respond env s fr)"
    by (simp add: detect_returns)
  also have "\<dots> \<noteq> Inl e"
    by (simp add: detect_respond_def Let_def)
  finally show ?thesis
    using assms by simp
qed

lemma last_after_push:
  assumes "0 < maxlen (phone_detections s)"
  shows "last (items (phone_detections (add_detection s a b c d t))) = entry (a, b, c, d, t)"
proof (cases "items (phone_detections s) = []")
  case True
  with assms show ?thesis
    by (simp add: add_detection_items)
next
  case False
  then have "tl (items (phone_detections s) @ [entry (a, b, c, d, t)]) =
      tl (items (phone_detections s)) @ [entry (a, b, c, d, t)]"
    by simp
  then show ?thesis
    by (simp add: add_detection_items Let_def)
qed

lemma env_returning_fields [simp]:
  "file_read (env_returning boxes pose) = Inr ()"
  "cv2_imdecode (env_returning boxes pose) buf = Inr (Some ())"
  "cv2_cvtColor (env_returning boxes pose) img = Inr ()"
  "detect_objects (env_returning boxes pose) rgb = Inr boxes"
  "detect_pose (env_returning boxes pose) rgb = Inr pose"
  "time_time (env_returning boxes pose) = 0"
  by (simp_all add: env_returning_def)

lemma detect_env_returning:
  "\<exists>res. fst (detect (env_returning boxes pose) s) = Inr res"
proof -
  have "detect_frame (env_returning boxes pose) = Inr (frame_of boxes pose)"
    by (rule detect_frame_returns) simp_all
  then have "detect (env_returning boxes pose) s =
      detect_respond (env_returning boxes pose) s (frame_of boxes pose)"
    by (rule detect_returns)
  then show ?thesis
    using detect_respond_response [of "env_returning boxes pose" s "frame_of boxes pose"]
    by auto
qed

text \<open>
  C1. Whenever the endpoint returns a response, every outside call has returned, and the
  tuple it has pushed has as its phone channel the conjunction of "some phone box was
  detected" and "one of the three flags the proximity loop computed for this frame is
  true"; the other three channels are these flags. In a window of positive capacity the
  pushed tuple is the last one, so a frame with a phone box and no flag leaves a tuple with
  phone false at the end of the window.
\<close>

theorem pushed_phone_channel:
  "fst (detect env s) = Inr res \<longrightarrow>
     (\<exists>buf img rgb boxes pose l r f.
        file_read env = Inr buf \<and> cv2_imdecode env buf = Inr (Some img) \<and>
        cv2_cvtColor env img = Inr rgb \<and> detect_objects env rgb = Inr boxes \<and>
        detect_pose env rgb = Inr pose \<and>
        (if 0 < length boxes \<and> pose \<noteq> None then
           check_phones is_phone_near_left_ear is_phone_near_right_ear
             is_phone_in_front_of_face boxes
             (case pose of Some p \<Rightarrow> pose_keypoints p | None \<Rightarrow> []) (False, False, False)
         else Inr (False, False, False)) = Inr (l, r, f) \<and>
        snd (detect env s) =
          add_detection s (0 < length boxes \<and> (l \<or> r \<or> f)) l r f (time_time env) \<and>
        (0 < maxlen (phone_detections s) \<longrightarrow>
           last (items (phone_detections (snd (detect env s)))) =
             entry (0 < length boxes \<and> (l \<or> r \<or> f), l, r, f, time_time env) \<and>
           phone (last (items (phone_detections (snd (detect env s))))) =
             (0 < length boxes \<and> (l \<or> r \<or> f)) \<and>
           (0 < length boxes \<and> \<not> l \<and> \<not> r \<and> \<not> f \<longrightarrow>
              \<not> phone (last (items (phone_detections (snd (detect env s))))))))"
proof
  assume ok: "fst (detect env s) = Inr res"
  have "\<exists>fr. detect_frame env = Inr fr"
  proof (cases "detect_frame env")
    case (Inl e)
    then have "fst (detect env s) = Inl (HTTPException 500 (''Detection failed: '' @ exception_str env e))"
      by (simp add: detect_raises)
    with ok show ?thesis by simp
  next
    case (Inr fr)
    then show ?thesis by blast
  qed
  then obtain fr where fr: "detect_frame env = Inr fr" ..
  then obtain buf img rgb boxes pose where
    ext: "file_read env = Inr buf" "cv2_imdecode env buf = Inr (Some img)"
      "cv2_cvtColor env img = Inr rgb" "detect_objects env rgb = Inr boxes"
      "detect_pose env rgb = Inr pose"
    and fr_eq: "fr = frame_of boxes pose"
    using detect_frame_Inr_D by blast
  define l where "l = phone_near_left_ear (frame_of boxes pose)"
  define r where "r = phone_near_right_ear (frame_of boxes pose)"
  define f where "f = phone_in_front_of_face (frame_of boxes pose)"
  have flags: "(if 0 < length boxes \<and> pose \<noteq> None then
      check_phones is_phone_near_left_ear is_phone_near_right_ear
        is_phone_in_front_of_face boxes
        (case pose of Some p \<Rightarrow> pose_keypoints p | None \<Rightarrow> []) (False, False, False)
    else Inr (False, False, False)) = Inr (l, r, f)"
    unfolding l_def r_def f_def by (rule frame_flags)
  have detected: "phone_detected (frame_of boxes pose) = (0 < length boxes)"
    by (simp add: frame_of_def Let_def)
  have "snd (detect env s) = snd (detect_respond env s fr)"
    using fr by (simp add: detect_returns)
  also have "\<dots> = add_detection s (0 < length boxes \<and> (l \<or> r \<or> f)) l r f (time_time env)"
    unfolding fr_eq l_def r_def f_def
    by (simp only: detect_respond_state detected)
  finally have pushed: "snd (detect env s) =
      add_detection s (0 < length boxes \<and> (l \<or> r \<or> f)) l r f (time_time env)" .
  have window: "0 < maxlen (phone_detections s) \<longrightarrow>
      last (items (phone_detections (snd (detect env s)))) =
        entry (0 < length boxes \<and> (l \<or> r \<or> f), l, r, f, time_time env) \<and>
      phone (last (items (phone_detections (snd (detect env s))))) =
        (0 < length boxes \<and> (l \<or> r \<or> f)) \<and>
      (0 < length boxes \<and> \<not> l \<and> \<not> r \<and> \<not> f \<longrightarrow>
         \<not> phone (last (items (phone_detections (snd (detect env s))))))"
    by (simp add: pushed last_after_push)
  from ext flags pushed window
  show "\<exists>buf img rgb boxes pose l r f.
      file_read env = Inr buf \<and> cv2_imdecode env buf = Inr (Some img) \<and>
      cv2_cvtColor env img = Inr rgb \<and> detect_objects env rgb = Inr boxes \<and>
      detect_pose env rgb = Inr pose \<and>
      (if 0 < length boxes \<and> pose \<noteq> None then
         check_phones is_phone_near_left_ear is_phone_near_right_ear
           is_phone_in_front_of_face boxes
           (case pose of Some p \<Rightarrow> pose_keypoints p | None \<Rightarrow> []) (False, False, False)
       else Inr (False, False, False)) = Inr (l, r, f) \<and>
      snd (detect env s) =
        add_detection s (0 < length boxes \<and> (l \<or> r \<or> f)) l r f (time_time env) \<and>
      (0 < maxlen (phone_detections s) \<longrightarrow>
         last (items (phone_detections (snd (detect env s)))) =
           entry (0 < length boxes \<and> (l \<or> r \<or> f), l, r, f, time_time env) \<and>
         phone (last (items (phone_detections (snd (detect env s))))) =
           (0 < length boxes \<and> (l \<or> r \<or> f)) \<and>
         (0 < length boxes \<and> \<not> l \<and> \<not> r \<and> \<not> f \<longrightarrow>
            \<not> phone (last (items (phone_detections (snd (detect env s)))))))"
    by (intro exI conjI)
qed

text \<open>
  Two first calls of the endpoint on the example pose: one with a single box far from
  the face, one with a single box on the left ear.
\<close>

theorem pushed_phone_channel_witness:
  "(\<exists>res. fst (detect (env_returning [box_centred 1000 1000] (found_pose pose_raised_wrists))
       initial_smoother) = Inr res) \<and>
   0 < maxlen (phone_detections initial_smoother) \<and>
   last (items (phone_detections (snd
     (detect (env_returning [box_centred 1000 1000] (found_pose pose_raised_wrists))
        initial_smoother)))) = entry (False, False, False, False, 0) \<and>
   (\<exists>res. fst (detect (env_returning [box_centred 130 85] (found_pose pose_raised_wrists))
       initial_smoother) = Inr res) \<and>
   last (items (phone_detections (snd
     (detect (env_returning [box_centred 130 85] (found_pose pose_raised_wrists))
        initial_smoother)))) = entry (True, True, False, False, 0)"
proof -
  let ?far = "env_returning [box_centred 1000 1000] (found_pose pose_raised_wrists)"
  let ?near = "env_returning [box_centred 130 85] (found_pose pose_raised_wrists)"
  have cap: "0 < maxlen (phone_detections initial_smoother)"
    by simp
  obtain res_far where far: "fst (detect ?far initial_smoother) = Inr res_far"
    using detect_env_returning by blast
  obtain res_near where near: "fst (detect ?near initial_smoother) = Inr res_near"
    using detect_env_returning by blast
  have far_flags:
    "check_phones is_phone_near_left_ear is_phone_near_right_ear is_phone_in_front_of_face
       [box_centred 1000 1000] pose_raised_wrists (False, False, False) =
     Inr (False, False, False)"
    by (simp only: check_phones_flags) (simp add: example_far_away)
  have near_flags:
    "check_phones is_phone_near_left_ear is_phone_near_right_ear is_phone_in_front_of_face
       [box_centred 130 85] pose_raised_wrists (False, False, False) =
     Inr (True, False, False)"
    by (simp only: check_phones_flags) (simp add: example_on_left_ear)
  have far_last: "last (items (phone_detections (snd (detect ?far initial_smoother)))) =
      entry (False, False, False, False, 0)"
    using pushed_phone_channel [of ?far initial_smoother res_far] far cap
    by (auto simp add: found_pose_def far_flags simp del: check_phones.simps)
  have near_last: "last (items (phone_detections (snd (detect ?near initial_smoother)))) =
      entry (True, True, False, False, 0)"
    using pushed_phone_channel [of ?near initial_smoother res_near] near cap
    by (auto simp add: found_pose_def near_flags simp del: check_phones.simps)
  from far have far_ok: "\<exists>res. fst (detect ?far initial_smoother) = Inr res" ..
  from near have near_ok: "\<exists>res. fst (detect ?near initial_smoother) = Inr res" ..
  show ?thesis
    by (intro conjI far_ok cap far_last near_ok near_last)
qed

text \<open>
  C9. When reading the upload, decoding it, converting its colours, the object detector
  or the pose detector raises, or the decoder returns \<^verbatim>\<open>None\<close>, the endpoint raises the
  status 500 and leaves the smoother as it found it. More generally the smoother is
  unchanged whenever the endpoint raises at all: every statement that can raise comes
  before the push, and the proximity classifiers never raise.
\<close>

theorem error_leaves_window_unchanged:
  "(file_read env = Inl e
      \<longrightarrow> detect env s =
            (Inl (HTTPException 500 (''Detection failed: '' @ exception_str env e)), s)) \<and>
   (file_read env = Inr buf \<and> cv2_imdecode env buf = Inl e
      \<longrightarrow> detect env s =
            (Inl (HTTPException 500 (''Detection failed: '' @ exception_str env e)), s)) \<and>
   (file_read env = Inr buf \<and> cv2_imdecode env buf = Inr None
      \<longrightarrow> detect env s =
            (Inl (HTTPException 500 (''Detection failed: '' @
               exception_str env (HTTPException 400 ''Invalid image format''))), s)) \<and>
   (file_read env = Inr buf \<and> cv2_imdecode env buf = Inr (Some img) \<and>
    cv2_cvtColor env img = Inl e
      \<longrightarrow> detect env s =
            (Inl (HTTPException 500 (''Detection failed: '' @ exception_str env e)), s)) \<and>
   (file_read env = Inr buf \<and> cv2_imdecode env buf = Inr (Some img) \<and>
    cv2_cvtColor env img = Inr rgb \<and> detect_objects env rgb = Inl e
      \<longrightarrow> detect env s =
            (Inl (HTTPException 500 (''Detection failed: '' @ exception_str env e)), s)) \<and>
   (file_read env = Inr buf \<and> cv2_imdecode env buf = Inr (Some img) \<and>
    cv2_cvtColor env img = Inr rgb \<and> detect_objects env rgb = Inr boxes \<and>
    detect_pose env rgb = Inl e
      \<longrightarrow> detect env s =
            (Inl (HTTPException 500 (''Detection failed: '' @ exception_str env e)), s)) \<and>
   (fst (detect env s) = Inl e' \<longrightarrow> snd (detect env s) = s)"
proof -
  have read: "file_read env = Inl e
      \<longrightarrow> detect env s =
            (Inl (HTTPException 500 (''Detection failed: '' @ exception_str env e)), s)"
    by (simp add: detect_frame_raises(1) detect_raises)
  have decode: "file_read env = Inr buf \<and> cv2_imdecode env buf = Inl e
      \<longrightarrow> detect env s =
            (Inl (HTTPException 500 (''Detection failed: '' @ exception_str env e)), s)"
    by (simp add: detect_frame_raises(2) detect_raises)
  have undecodable: "file_read env = Inr buf \<and> cv2_imdecode env buf = Inr None
      \<longrightarrow> detect env s =
            (Inl (HTTPException 500 (''Detection failed: '' @
               exception_str env (HTTPException 400 ''Invalid image format''))), s)"
    by (simp add: detect_frame_raises(3) detect_raises)
  have colour: "file_read env = Inr buf \<and> cv2_imdecode env buf = Inr (Some img) \<and>
    cv2_cvtColor env img = Inl e
      \<longrightarrow> detect env s =
            (Inl (HTTPException 500 (''Detection failed: '' @ exception_str env e)), s)"
    by (simp add: detect_frame_raises(4) detect_raises)
  have objects: "file_read env = Inr buf \<and> cv2_imdecode env buf = Inr (Some img) \<and>
    cv2_cvtColor env img = Inr rgb \<and> detect_objects env rgb = Inl e
      \<longrightarrow> detect env s =
            (Inl (HTTPException 500 (''Detection failed: '' @ exception_str env e)), s)"
    by (simp add: detect_frame_raises(5) detect_raises)
  have pose: "file_read env = Inr buf \<and> cv2_imdecode env buf = Inr (Some img) \<and>
    cv2_cvtColor env img = Inr rgb \<and> detect_objects env rgb = Inr boxes \<and>
    detect_pose env rgb = Inl e
      \<longrightarrow> detect env s =
            (Inl (HTTPException 500 (''Detection failed: '' @ exception_str env e)), s)"
    by (simp add: detect_frame_raises(6) detect_raises)
  have any: "fst (detect env s) = Inl e' \<longrightarrow> snd (detect env s) = s"
    by (simp add: detect_error_unchanged)
  show ?thesis
    by (intro conjI read decode undecodable colour objects pose any)
qed

text \<open>
  Six environments, in each of which one step fails, and a window that already holds a
  tuple.
\<close>

theorem error_leaves_window_unchanged_witness:
  "file_read ((env_returning [] None)\<lparr>file_read := Inl (Error ''read'')\<rparr>) = Inl (Error ''read'') \<and>
   detect ((env_returning [] None)\<lparr>file_read := Inl (Error ''read'')\<rparr>)
     (add_detection initial_smoother True True False False 0) =
     (Inl (HTTPException 500 ''Detection failed: exception''),
      add_detection initial_smoother True True False False 0) \<and>
   cv2_imdecode ((env_returning [] None)\<lparr>cv2_imdecode := (\<lambda>_. Inl (Error ''decode''))\<rparr>) () =
     Inl (Error ''decode'') \<and>
   detect ((env_returning [] None)\<lparr>cv2_imdecode := (\<lambda>_. Inl (Error ''decode''))\<rparr>)
     (add_detection initial_smoother True True False False 0) =
     (Inl (HTTPException 500 ''Detection failed: exception''),
      add_detection initial_smoother True True False False 0) \<and>
   cv2_imdecode env_undecodable () = Inr None \<and>
   detect env_undecodable (add_detection initial_smoother True True False False 0) =
     (Inl (HTTPException 500 ''Detection failed: exception''),
      add_detection initial_smoother True True False False 0) \<and>
   cv2_cvtColor ((env_returning [] None)\<lparr>cv2_cvtColor := (\<lambda>_. Inl (Error ''colour''))\<rparr>) () =
     Inl (Error ''colour'') \<and>
   detect ((env_returning [] None)\<lparr>cv2_cvtColor := (\<lambda>_. Inl (Error ''colour''))\<rparr>)
     (add_detection initial_smoother True True False False 0) =
     (Inl (HTTPException 500 ''Detection failed: exception''),
      add_detection initial_smoother True True False False 0) \<and>
   detect_objects ((env_returning [] None)\<lparr>detect_objects := (\<lambda>_. Inl (Error ''objects''))\<rparr>) () =
     Inl (Error ''objects'') \<and>
   detect ((env_returning [] None)\<lparr>detect_objects := (\<lambda>_. Inl (Error ''objects''))\<rparr>)
     (add_detection initial_smoother True True False False 0) =
     (Inl (HTTPException 500 ''Detection failed: exception''),
      add_detection initial_smoother True True False False 0) \<and>
   detect_pose ((env_returning [box_centred 130 85] None)\<lparr>detect_pose := (\<lambda>_. Inl (Error ''pose''))\<rparr>) () =
     Inl (Error ''pose'') \<and>
   detect ((env_returning [box_centred 130 85] None)\<lparr>detect_pose := (\<lambda>_. Inl (Error ''pose''))\<rparr>)
     (add_detection initial_smoother True True False False 0) =
     (Inl (HTTPException 500 ''Detection failed: exception''),
      add_detection initial_smoother True True False False 0) \<and>
   fst (detect env_undecodable (add_detection initial_smoother True True False False 0)) =
     Inl (HTTPException 500 ''Detection failed: exception'') \<and>
   snd (detect env_undecodable (add_detection initial_smoother True True False False 0)) =
     add_detection initial_smoother True True False False 0"
proof -
  let ?s = "add_detection initial_smoother True True False False 0"
  let ?read = "(env_returning [] None)\<lparr>file_read := Inl (Error ''read'')\<rparr>"
  let ?decode = "(env_returning [] None)\<lparr>cv2_imdecode := (\<lambda>_. Inl (Error ''decode''))\<rparr>"
  let ?colour = "(env_returning [] None)\<lparr>cv2_cvtColor := (\<lambda>_. Inl (Error ''colour''))\<rparr>"
  let ?objects = "(env_returning [] None)\<lparr>detect_objects := (\<lambda>_. Inl (Error ''objects''))\<rparr>"
  let ?pose = "(env_returning [box_centred 130 85] None)\<lparr>detect_pose := (\<lambda>_. Inl (Error ''pose''))\<rparr>"
  have read: "file_read ?read = Inl (Error ''read'')"
    by simp
  have read_500: "detect ?read ?s = (Inl (HTTPException 500 ''Detection failed: exception''), ?s)"
    using error_leaves_window_unchanged [of ?read "Error ''read''" ?s] read
    by (simp add: env_returning_def)
  have decode: "file_read ?decode = Inr ()" "cv2_imdecode ?decode () = Inl (Error ''decode'')"
    by (simp_all add: env_returning_def)
  have decode_500: "detect ?decode ?s = (Inl (HTTPException 500 ''Detection failed: exception''), ?s)"
    using error_leaves_window_unchanged [of ?decode "Error ''decode''" ?s "()"] decode
    by (simp add: env_returning_def)
  have none: "file_read env_undecodable = Inr ()" "cv2_imdecode env_undecodable () = Inr None"
    by (simp_all add: env_undecodable_def env_returning_def)
  have none_500: "detect env_undecodable ?s =
      (Inl (HTTPException 500 ''Detection failed: exception''), ?s)"
    using error_leaves_window_unchanged [of env_undecodable _ ?s "()"] none
    by (simp add: env_undecodable_def env_returning_def)
  have colour: "file_read ?colour = Inr ()" "cv2_imdecode ?colour () = Inr (Some ())"
    "cv2_cvtColor ?colour () = Inl (Error ''colour'')"
    by (simp_all add: env_returning_def)
  have colour_500: "detect ?colour ?s = (Inl (HTTPException 500 ''Detection failed: exception''), ?s)"
    using error_leaves_window_unchanged [of ?colour "Error ''colour''" ?s "()" "()"] colour
    by (simp add: env_returning_def)
  have objects: "file_read ?objects = Inr ()" "cv2_imdecode ?objects () = Inr (Some ())"
    "cv2_cvtColor ?objects () = Inr ()" "detect_objects ?objects () = Inl (Error ''objects'')"
    by (simp_all add: env_returning_def)
  have objects_500: "detect ?objects ?s = (Inl (HTTPException 500 ''Detection failed: exception''), ?s)"
    using error_leaves_window_unchanged [of ?objects "Error ''objects''" ?s "()" "()" "()"] objects
    by (simp add: env_returning_def)
  have pose: "file_read ?pose = Inr ()" "cv2_imdecode ?pose () = Inr (Some ())"
    "cv2_cvtColor ?pose () = Inr ()" "detect_objects ?pose () = Inr [box_centred 130 85]"
    "detect_pose ?pose () = Inl (Error ''pose'')"
    by (simp_all add: env_returning_def)
  have pose_500: "detect ?pose ?s = (Inl (HTTPException 500 ''Detection failed: exception''), ?s)"
    using error_leaves_window_unchanged [of ?pose "Error ''pose''" ?s "()" "()" "()"
        "[box_centred 130 85]"] pose
    by (simp add: env_returning_def)
  have raised: "fst (detect env_undecodable ?s) =
      Inl (HTTPException 500 ''Detection failed: exception'')"
    by (simp add: none_500)
  then have same: "snd (detect env_undecodable ?s) = ?s"
    using error_leaves_window_unchanged [of env_undecodable _ ?s _ _ _ _
        "HTTPException 500 ''Detection failed: exception''"]
    by blast
  show ?thesis
    by (intro conjI read read_500 decode(2) decode_500 none(2) none_500 colour(3) colour_500
        objects(4) objects_500 pose(5) pose_500 raised same)
qed

text \<open>
  C8. The claim asks for the status 400 with the detail "Invalid image format" when the
  upload cannot be decoded. The endpoint raises exactly that inside its \<^verbatim>\<open>try\<close> block,
  where \<^verbatim>\<open>except Exception\<close> catches it: what leaves the endpoint is the status 500 of
  unexpected failures, with the 400 only inside its detail text. Evaluated on an
  environment whose decoder returns \<^verbatim>\<open>None\<close>.
\<close>

theorem undecodable_image_raises_500:
  "cv2_imdecode env_undecodable () = Inr None \<and>
   detect_frame env_undecodable = Inl (HTTPException 400 ''Invalid image format'') \<and>
   detect env_undecodable initial_smoother =
     (Inl (HTTPException 500 (''Detection failed: '' @
        exception_str env_undecodable (HTTPException 400 ''Invalid image format''))),
      initial_smoother) \<and>
   fst (detect env_undecodable initial_smoother) \<noteq>
     Inl (HTTPException 400 ''Invalid image format'')"
proof -
  have none: "file_read env_undecodable = Inr ()" "cv2_imdecode env_undecodable () = Inr None"
    by (simp_all add: env_undecodable_def env_returning_def)
  then have inner: "detect_frame env_undecodable = Inl (HTTPException 400 ''Invalid image format'')"
    by (rule detect_frame_raises(3))
  then have outer: "detect env_undecodable initial_smoother =
      (Inl (HTTPException 500 (''Detection failed: '' @
         exception_str env_undecodable (HTTPException 400 ''Invalid image format''))),
       initial_smoother)"
    by (rule detect_raises)
  then have differs: "fst (detect env_undecodable initial_smoother) \<noteq>
      Inl (HTTPException 400 ''Invalid image format'')"
    by simp
  show ?thesis
    by (intro conjI none(2) inner outer differs)
qed

lemma detect_response_flags:
  assumes "fst (detect env s) = Inr res"
  shows "res_phone_detected res =
      smoothed_phone_detected (get_smoothed_result (snd (detect env s)))"
    and "res_phone_near_left_ear res =
      smoothed_phone_near_left_ear (get_smoothed_result (snd (detect env s)))"
    and "res_phone_near_right_ear res =
      smoothed_phone_near_right_ear (get_smoothed_result (snd (detect env s)))"
    and "res_phone_in_front_of_face res =
      smoothed_phone_in_front_of_face (get_smoothed_result (snd (detect env s)))"
proof -
  obtain fr where fr: "detect_frame env = Inr fr"
    using assms by (cases "detect_frame env") (simp_all add: detect_raises)
  then have eq: "detect env s = detect_respond env s fr"
    by (rule detect_returns)
  obtain res' where res': "fst (detect_respond env s fr) = Inr res'"
    and flags: "res_phone_detected res' =
        smoothed_phone_detected (get_smoothed_result (snd (detect_respond env s fr)))"
      "res_phone_near_left_ear res' =
        smoothed_phone_near_left_ear (get_smoothed_result (snd (detect_respond env s fr)))"
      "res_phone_near_right_ear res' =
        smoothed_phone_near_right_ear (get_smoothed_result (snd (detect_respond env s fr)))"
      "res_phone_in_front_of_face res' =
        smoothed_phone_in_front_of_face (get_smoothed_result (snd (detect_respond env s fr)))"
    using detect_respond_response [of env s fr] by blast
  have "res' = res"
    using assms res' by (simp add: eq)
  with flags show "res_phone_detected res =
      smoothed_phone_detected (get_smoothed_result (snd (detect env s)))"
    and "res_phone_near_left_ear res =
      smoothed_phone_near_left_ear (get_smoothed_result (snd (detect env s)))"
    and "res_phone_near_right_ear res =
      smoothed_phone_near_right_ear (get_smoothed_result (snd (detect env s)))"
    and "res_phone_in_front_of_face res =
      smoothed_phone_in_front_of_face (get_smoothed_result (snd (detect env s)))"
    by (simp_all add: eq)
qed

lemma detect_window:
  "window_size (snd (detect env s)) = window_size s"
  "length (items (phone_detections (snd (detect env s)))) \<le>
     Suc (length (items (phone_detections s)))"
proof -
  show "window_size (snd (detect env s)) = window_size s"
  proof (cases "detect_frame env")
    case (Inl e)
    then show ?thesis by (simp add: detect_raises)
  next
    case (Inr fr)
    then show ?thesis by (simp add: detect_returns detect_respond_state)
  qed
  show "length (items (phone_detections (snd (detect env s)))) \<le>
     Suc (length (items (phone_detections s)))"
  proof (cases "detect_frame env")
    case (Inl e)
    then show ?thesis by (simp add: detect_raises)
  next
    case (Inr fr)
    then show ?thesis
      by (simp add: detect_returns detect_respond_state add_detection_items Let_def)
  qed
qed

lemma few_tuples_all_false:
  assumes "window_size s = 5" and "length (items (phone_detections s)) \<le> 2"
  shows "get_smoothed_result s = all_false"
proof (cases "items (phone_detections s) = []")
  case True
  then show ?thesis by (rule get_smoothed_result_empty)
next
  case False
  have votes: "length (filter P (items (phone_detections s))) \<le> 2" for P
    using assms(2) length_filter_le [of P "items (phone_detections s)"] by linarith
  have "\<not> real_of_int (window_size s) / 2 < real (length (filter P (items (phone_detections s))))"
    for P
    using votes [of P] assms(1) by simp
  then show ?thesis
    using get_smoothed_result_nonempty [OF False] by (simp add: all_false_def)
qed

text \<open>
  C10. With the window size 5 of the module's smoother, a window of at most 2 tuples gives
  false on all four channels, whatever the tuples hold: a channel has at most 2 votes, and
  the threshold is \<open>5 / 2\<close>, taken from the capacity and not from the number of tuples. So
  the first and the second call of the endpoint after the start, whenever they return a
  response, return all four flags false.
\<close>

theorem short_window_reads_all_false:
  "(window_size s = 5 \<and> length (items (phone_detections s)) \<le> 2
      \<longrightarrow> get_smoothed_result s = all_false) \<and>
   (fst (detect env1 initial_smoother) = Inr res1
      \<longrightarrow> \<not> res_phone_detected res1 \<and> \<not> res_phone_near_left_ear res1 \<and>
          \<not> res_phone_near_right_ear res1 \<and> \<not> res_phone_in_front_of_face res1) \<and>
   (fst (detect env2 (snd (detect env1 initial_smoother))) = Inr res2
      \<longrightarrow> \<not> res_phone_detected res2 \<and> \<not> res_phone_near_left_ear res2 \<and>
          \<not> res_phone_near_right_ear res2 \<and> \<not> res_phone_in_front_of_face res2)"
proof -
  let ?s1 = "snd (detect env1 initial_smoother)"
  let ?s2 = "snd (detect env2 ?s1)"
  have general: "window_size s = 5 \<and> length (items (phone_detections s)) \<le> 2
      \<longrightarrow> get_smoothed_result s = all_false"
    by (simp add: few_tuples_all_false)
  have s1: "window_size ?s1 = 5" "length (items (phone_detections ?s1)) \<le> 1"
    using detect_window [of env1 initial_smoother] by simp_all
  then have read1: "get_smoothed_result ?s1 = all_false"
    by (intro few_tuples_all_false) simp_all
  have s2: "window_size ?s2 = 5" "length (items (phone_detections ?s2)) \<le> 2"
    using detect_window [of env2 ?s1] s1 by simp_all
  then have read2: "get_smoothed_result ?s2 = all_false"
    by (rule few_tuples_all_false)
  have first: "fst (detect env1 initial_smoother) = Inr res1
      \<longrightarrow> \<not> res_phone_detected res1 \<and> \<not> res_phone_near_left_ear res1 \<and>
          \<not> res_phone_near_right_ear res1 \<and> \<not> res_phone_in_front_of_face res1"
    using detect_response_flags [of env1 initial_smoother res1]
    by (simp add: read1 all_false_def)
  have second: "fst (detect env2 ?s1) = Inr res2
      \<longrightarrow> \<not> res_phone_detected res2 \<and> \<not> res_phone_near_left_ear res2 \<and>
          \<not> res_phone_near_right_ear res2 \<and> \<not> res_phone_in_front_of_face res2"
    using detect_response_flags [of env2 ?s1 res2]
    by (simp add: read2 all_false_def)
  show ?thesis
    by (intro conjI general first second)
qed

text \<open>
  A window of two tuples with every channel true reads all false; and the first two calls
  of the endpoint from the start, each on a frame with a box on the left ear of the
  example pose, return all four flags false.
\<close>

theorem short_window_reads_all_false_witness:
  "window_size (add_detections initial_smoother
     [(True, True, True, True, 0), (True, True, True, True, 1)]) = 5 \<and>
   length (items (phone_detections (add_detections initial_smoother
     [(True, True, True, True, 0), (True, True, True, True, 1)]))) \<le> 2 \<and>
   get_smoothed_result (add_detections initial_smoother
     [(True, True, True, True, 0), (True, True, True, True, 1)]) = all_false \<and>
   (\<exists>res1 res2.
      fst (detect (env_returning [box_centred 130 85] (found_pose pose_raised_wrists))
             initial_smoother) = Inr res1 \<and>
      \<not> res_phone_detected res1 \<and> \<not> res_phone_near_left_ear res1 \<and>
      \<not> res_phone_near_right_ear res1 \<and> \<not> res_phone_in_front_of_face res1 \<and>
      fst (detect (env_returning [box_centred 130 85] (found_pose pose_raised_wrists))
             (snd (detect (env_returning [box_centred 130 85] (found_pose pose_raised_wrists))
                     initial_smoother))) = Inr res2 \<and>
      \<not> res_phone_detected res2 \<and> \<not> res_phone_near_left_ear res2 \<and>
      \<not> res_phone_near_right_ear res2 \<and> \<not> res_phone_in_front_of_face res2)"
proof -
  let ?ps = "[(True, True, True, True, 0 :: real), (True, True, True, True, 1)]"
  let ?s = "add_detections initial_smoother ?ps"
  let ?env = "env_returning [box_centred 130 85] (found_pose pose_raised_wrists)"
  let ?s1 = "snd (detect ?env initial_smoother)"
  have size: "window_size ?s = 5"
    by simp
  have "items (phone_detections ?s) = map entry ?ps"
    using add_detections_drop [of initial_smoother ?ps] by simp
  then have short: "length (items (phone_detections ?s)) \<le> 2"
    by simp
  have quiet: "get_smoothed_result ?s = all_false"
    using short_window_reads_all_false [of ?s] size short by blast
  obtain res1 where res1: "fst (detect ?env initial_smoother) = Inr res1"
    using detect_env_returning by blast
  obtain res2 where res2: "fst (detect ?env ?s1) = Inr res2"
    using detect_env_returning by blast
  have first: "\<not> res_phone_detected res1 \<and> \<not> res_phone_near_left_ear res1 \<and>
      \<not> res_phone_near_right_ear res1 \<and> \<not> res_phone_in_front_of_face res1"
    using short_window_reads_all_false [of _ ?env res1] res1 by blast
  have second: "\<not> res_phone_detected res2 \<and> \<not> res_phone_near_left_ear res2 \<and>
      \<not> res_phone_near_right_ear res2 \<and> \<not> res_phone_in_front_of_face res2"
    using short_window_reads_all_false [of _ ?env _ ?env res2] res2 by blast
  from res1 first res2 second
  have calls: "\<exists>res1 res2.
      fst (detect ?env initial_smoother) = Inr res1 \<and>
      \<not> res_phone_detected res1 \<and> \<not> res_phone_near_left_ear res1 \<and>
      \<not> res_phone_near_right_ear res1 \<and> \<not> res_phone_in_front_of_face res1 \<and>
      fst (detect ?env ?s1) = Inr res2 \<and>
      \<not> res_phone_detected res2 \<and> \<not> res_phone_near_left_ear res2 \<and>
      \<not> res_phone_near_right_ear res2 \<and> \<not> res_phone_in_front_of_face res2"
    by blast
  show ?thesis
    by (intro conjI size short quiet calls)
qed

end
